theory Spec2Isabelle
  imports Main "HOL-Library.Word"
begin

unbundle bit_operations_syntax

section \<open>Data model\<close>

text \<open>
  A Node.js \<open>Buffer\<close> is a list of bytes. \<open>buffer.slice(a, b)\<close> clamps both bounds to
  the length of the buffer and never throws, which is what \<open>take\<close> and \<open>drop\<close> do.
\<close>

type_synonym byte = "8 word"
type_synonym buffer = "byte list"

text \<open>
  The values the code handles dynamically: what \<open>cbor.decodeAllSync\<close> hands back and what
  property access on it yields. A CBOR map whose keys are all text strings is decoded to a
  plain object (\<open>JObject\<close>), any other CBOR map to an ES6 \<open>Map\<close> (\<open>JMap\<close>); a byte string
  is decoded to a \<open>Buffer\<close>. \<open>JObject kvs\<close> is an object whose properties, apart from
  those of \<open>Object.prototype\<close>, are \<open>kvs\<close>; \<open>JNumber\<close> holds the integers, which JavaScript
  adds exactly up to \<open>2 ^ 53\<close> (the code's behaviour on a fraction is that on an integer:
  it is added to a size that is then in range or not).
\<close>

datatype jsval =
    JUndefined
  | JNull
  | JBool bool
  | JNumber int
  | JString string
  | JBuffer buffer
  | JArray "jsval list"
  | JObject "(string \<times> jsval) list"
  | JMap "(jsval \<times> jsval) list"

text \<open>
  Everything the code can throw. \<open>Error msg\<close> is \<open>throw new Error(msg)\<close> of the source
  itself; \<open>RangeError\<close> is what \<open>Buffer.readUInt32BE\<close> and \<open>Buffer.readUInt16BE\<close> throw
  on a read past the end, and what \<open>Buffer.allocUnsafe\<close> throws on a size that is negative
  or above the largest buffer; \<open>TypeError\<close> is what the JavaScript runtime throws on a
  property access on \<open>undefined\<close> or \<open>null\<close> and on a call of something that is not a
  function, what \<open>Buffer.allocUnsafe\<close> throws on a size that is not a number, and what
  \<open>Buffer.concat\<close> throws on a list element that is not a \<open>Buffer\<close>;
  \<open>External msg\<close> is an exception thrown inside one of the three libraries
  (\<open>base64url\<close>, \<open>cbor\<close>, \<open>crypto\<close>).
\<close>

datatype error =
    Error string
  | RangeError
  | TypeError
  | External string

section \<open>Reading integers from a buffer\<close>

text \<open>
  \<open>buf.readUInt32BE(offset)\<close> and \<open>buf.readUInt16BE(offset)\<close>: big-endian unsigned reads
  that throw a \<open>RangeError\<close> when the first or the last byte of the field is missing.
\<close>

definition readUInt32BE :: "buffer \<Rightarrow> nat \<Rightarrow> error + nat" where
  "readUInt32BE buf offset =
     (if length buf \<le> offset + 3 then Inl RangeError
      else Inr (unat (buf ! offset) * 2 ^ 24 + unat (buf ! (offset + 1)) * 2 ^ 16
                + unat (buf ! (offset + 2)) * 2 ^ 8 + unat (buf ! (offset + 3))))"

definition readUInt16BE :: "buffer \<Rightarrow> nat \<Rightarrow> error + nat" where
  "readUInt16BE buf offset =
     (if length buf \<le> offset + 1 then Inl RangeError
      else Inr (unat (buf ! offset) * 2 ^ 8 + unat (buf ! (offset + 1))))"

text \<open>\<open>buf[0]\<close>: the first byte, or \<open>undefined\<close> (here \<open>None\<close>) on an empty buffer.\<close>

definition index0 :: "buffer \<Rightarrow> byte option" where
  "index0 buf = (case buf of [] \<Rightarrow> None | b # _ \<Rightarrow> Some b)"

section \<open>parseMakeCredAuthData\<close>

record authData =
  rpIdHash :: buffer
  flagsBuf :: buffer
  flags :: "byte option"
  counter :: nat
  counterBuf :: buffer
  aaguid :: buffer
  credID :: buffer
  COSEPublicKey :: buffer

text \<open>
  The source reassigns \<open>buffer\<close> after every field; the model numbers the successive
  values \<open>buffer1\<close>, \<open>buffer2\<close>, ... The only statements that can throw are the two
  integer reads.
\<close>

definition parseMakeCredAuthData :: "buffer \<Rightarrow> error + authData" where
  "parseMakeCredAuthData buffer =
     (let rpIdHash' = take 32 buffer; buffer1 = drop 32 buffer;
          flagsBuf' = take 1 buffer1; buffer2 = drop 1 buffer1;
          flags' = index0 flagsBuf';
          counterBuf' = take 4 buffer2; buffer3 = drop 4 buffer2
      in case readUInt32BE counterBuf' 0 of
           Inl e \<Rightarrow> Inl e
         | Inr counter' \<Rightarrow>
            (let aaguid' = take 16 buffer3; buffer4 = drop 16 buffer3;
                 credIDLenBuf = take 2 buffer4; buffer5 = drop 2 buffer4
             in case readUInt16BE credIDLenBuf 0 of
                  Inl e \<Rightarrow> Inl e
                | Inr credIDLen \<Rightarrow>
                   (let credID' = take credIDLen buffer5; buffer6 = drop credIDLen buffer5;
                        COSEPublicKey' = buffer6
                    in Inr \<lparr> rpIdHash = rpIdHash', flagsBuf = flagsBuf', flags = flags',
                             counter = counter', counterBuf = counterBuf', aaguid = aaguid',
                             credID = credID', COSEPublicKey = COSEPublicKey' \<rparr>)))"

section \<open>Dynamic access to decoded values\<close>

text \<open>
  \<open>items[0]\<close> on the array returned by \<open>cbor.decodeAllSync\<close>: \<open>undefined\<close> when the
  array is empty.
\<close>

definition first_item :: "jsval list \<Rightarrow> jsval" where
  "first_item items = (case items of [] \<Rightarrow> JUndefined | v # _ \<Rightarrow> v)"

text \<open>
  \<open>v.name\<close> for the four names the code reads (\<open>authData\<close>, \<open>attStmt\<close>, \<open>x5c\<close>,
  \<open>sig\<close>): a \<open>TypeError\<close> on \<open>undefined\<close> and \<open>null\<close>, the entry of a plain
  object, and \<open>undefined\<close> on every other value (numbers, strings, buffers, arrays and
  \<open>Map\<close>s have no property of these names).
\<close>

definition getProp :: "jsval \<Rightarrow> string \<Rightarrow> error + jsval" where
  "getProp v name =
     (case v of
        JUndefined \<Rightarrow> Inl TypeError
      | JNull \<Rightarrow> Inl TypeError
      | JObject kvs \<Rightarrow> Inr (case map_of kvs name of None \<Rightarrow> JUndefined | Some w \<Rightarrow> w)
      | _ \<Rightarrow> Inr JUndefined)"

text \<open>\<open>v[0]\<close>, as in \<open>attStmt.x5c[0]\<close>.\<close>

definition getIndex0 :: "jsval \<Rightarrow> error + jsval" where
  "getIndex0 v =
     (case v of
        JUndefined \<Rightarrow> Inl TypeError
      | JNull \<Rightarrow> Inl TypeError
      | JArray xs \<Rightarrow> Inr (first_item xs)
      | JBuffer b \<Rightarrow> Inr (case b of [] \<Rightarrow> JUndefined | x # _ \<Rightarrow> JNumber (uint x))
      | JString s \<Rightarrow> Inr (case s of [] \<Rightarrow> JUndefined | c # _ \<Rightarrow> JString [c])
      | JObject kvs \<Rightarrow> Inr (case map_of kvs ''0'' of None \<Rightarrow> JUndefined | Some w \<Rightarrow> w)
      | _ \<Rightarrow> Inr JUndefined)"

text \<open>
  \<open>v.get(k)\<close>: only a \<open>Map\<close> has a \<open>get\<close> method; on every other value the call is a
  \<open>TypeError\<close>. The code looks up the numbers \<open>-2\<close> and \<open>-3\<close>; a missing key gives
  \<open>undefined\<close>.
\<close>

definition Map_get :: "jsval \<Rightarrow> jsval \<Rightarrow> error + jsval" where
  "Map_get v k =
     (case v of
        JMap kvs \<Rightarrow> Inr (case map_of kvs k of None \<Rightarrow> JUndefined | Some w \<Rightarrow> w)
      | _ \<Rightarrow> Inl TypeError)"

text \<open>
  \<open>Buffer.concat(list)\<close> works in three steps, and the model follows them:
  \<^verbatim>\<open>
  length = 0
  for (i = 0; i < list.length; i++)
    if (list[i].length) length += list[i].length
  buffer = Buffer.allocUnsafe(length)
  for (i = 0; i < list.length; i++) {
    if (!isUint8Array(list[i])) throw new ERR_INVALID_ARG_TYPE(...)
    copy list[i] into buffer
  }
  \<close>
  So the sizes are added up and the buffer is allocated before any element is checked to
  be a \<open>Buffer\<close>.

  \<open>v.length\<close>: a \<open>TypeError\<close> on \<open>undefined\<close> and \<open>null\<close>; the size of a string, a
  \<open>Buffer\<close> or an array; the entry \<open>length\<close> of a plain object; \<open>undefined\<close> on a number,
  a boolean and a \<open>Map\<close>.
\<close>

definition get_length :: "jsval \<Rightarrow> error + jsval" where
  "get_length v =
     (case v of
        JUndefined \<Rightarrow> Inl TypeError
      | JNull \<Rightarrow> Inl TypeError
      | JString s \<Rightarrow> Inr (JNumber (int (length s)))
      | JBuffer b \<Rightarrow> Inr (JNumber (int (length b)))
      | JArray xs \<Rightarrow> Inr (JNumber (int (length xs)))
      | JObject kvs \<Rightarrow> Inr (case map_of kvs ''length'' of None \<Rightarrow> JUndefined | Some w \<Rightarrow> w)
      | _ \<Rightarrow> Inr JUndefined)"

text \<open>
  The running total \<open>length\<close>: a number, or no number any more. \<open>+=\<close> adds a number and
  counts \<open>true\<close> as 1; with a string, a \<open>Buffer\<close>, an array, an object or a \<open>Map\<close> on its
  right it converts both sides to strings and concatenates them (or throws a
  \<open>TypeError\<close> when the object cannot be converted), and the total stays a string from
  then on. Either way the call ends in a \<open>TypeError\<close>, at the latest in
  \<open>Buffer.allocUnsafe\<close>: \<open>NotNumber\<close> stands for both.
\<close>

datatype js_length = Length int | NotNumber

text \<open>\<open>if (w) length += w\<close>: nothing is added for a \<open>w\<close> that is not truthy.\<close>

definition add_length :: "js_length \<Rightarrow> jsval \<Rightarrow> js_length" where
  "add_length acc w =
     (case w of
        JUndefined \<Rightarrow> acc
      | JNull \<Rightarrow> acc
      | JBool b \<Rightarrow>
          (if b then (case acc of Length n \<Rightarrow> Length (n + 1) | NotNumber \<Rightarrow> NotNumber)
           else acc)
      | JNumber k \<Rightarrow>
          (if k = 0 then acc
           else (case acc of Length n \<Rightarrow> Length (n + k) | NotNumber \<Rightarrow> NotNumber))
      | JString s \<Rightarrow> (if s = [] then acc else NotNumber)
      | _ \<Rightarrow> NotNumber)"

fun sum_lengths :: "js_length \<Rightarrow> jsval list \<Rightarrow> error + js_length" where
  "sum_lengths acc [] = Inr acc"
| "sum_lengths acc (v # vs) =
     (case get_length v of
        Inl e \<Rightarrow> Inl e
      | Inr w \<Rightarrow> sum_lengths (add_length acc w) vs)"

text \<open>
  \<open>Buffer.allocUnsafe(size)\<close> throws a \<open>TypeError\<close> when \<open>size\<close> is not a number and a
  \<open>RangeError\<close> when it is negative or above \<open>kMaxLength\<close>, the largest size the runtime
  grants (\<open>buffer.constants.MAX_LENGTH\<close>, which depends on the platform and on the version
  of Node.js).
\<close>

definition allocUnsafe_error :: "int \<Rightarrow> js_length \<Rightarrow> error option" where
  "allocUnsafe_error kMaxLength' sz =
     (case sz of
        NotNumber \<Rightarrow> Some TypeError
      | Length n \<Rightarrow> (if n < 0 \<or> kMaxLength' < n then Some RangeError else None))"

text \<open>The second loop: the first element that is not a \<open>Buffer\<close> is a \<open>TypeError\<close>.\<close>

fun copy_buffers :: "jsval list \<Rightarrow> error + buffer" where
  "copy_buffers [] = Inr []"
| "copy_buffers (JBuffer b # vs) =
     (case copy_buffers vs of Inl e \<Rightarrow> Inl e | Inr bs \<Rightarrow> Inr (b @ bs))"
| "copy_buffers (_ # vs) = Inl TypeError"

definition Buffer_concat :: "int \<Rightarrow> jsval list \<Rightarrow> error + buffer" where
  "Buffer_concat kMaxLength' list =
     (if list = [] then Inr []
      else case sum_lengths (Length 0) list of
             Inl e \<Rightarrow> Inl e
           | Inr sz \<Rightarrow>
              (case allocUnsafe_error kMaxLength' sz of
                 Some e \<Rightarrow> Inl e
               | None \<Rightarrow> copy_buffers list))"

section \<open>The libraries\<close>

text \<open>
  \<open>base64url\<close>, \<open>cbor\<close> and Node's \<open>crypto\<close> are not part of the repository. The model
  takes them as a parameter: a record of the four library functions the code calls, and
  of the runtime's largest buffer size. A library function that throws returns \<open>Inl msg\<close>.
  \<^item> \<open>toBuffer\<close> is \<open>base64url.toBuffer\<close>;
  \<^item> \<open>decodeAllSync\<close> is \<open>cbor.decodeAllSync\<close>, which returns the array of all the items
    encoded in its input;
  \<^item> \<open>createHash_SHA256 data\<close> is \<open>crypto.createHash('SHA256').update(data).digest()\<close>;
  \<^item> \<open>createVerify_SHA256 data publicKey signature\<close> is
    \<open>crypto.createVerify('SHA256').update(data).verify(publicKey, signature)\<close>;
  \<^item> \<open>kMaxLength\<close> is the size above which \<open>Buffer.allocUnsafe\<close> throws.
\<close>

record library =
  toBuffer :: "string \<Rightarrow> string + buffer"
  decodeAllSync :: "buffer \<Rightarrow> string + jsval list"
  createHash_SHA256 :: "buffer \<Rightarrow> buffer"
  createVerify_SHA256 :: "buffer \<Rightarrow> string \<Rightarrow> jsval \<Rightarrow> string + bool"
  kMaxLength :: int

definition ext :: "string + 'a \<Rightarrow> error + 'a" where
  "ext r = (case r of Inl msg \<Rightarrow> Inl (External msg) | Inr v \<Rightarrow> Inr v)"

definition U2F_USER_PRESENTED :: byte where
  "U2F_USER_PRESENTED = 0x01"

definition verifySignature :: "library \<Rightarrow> jsval \<Rightarrow> buffer \<Rightarrow> string \<Rightarrow> error + bool" where
  "verifySignature L signature data publicKey =
     ext (createVerify_SHA256 L data publicKey signature)"

definition hash :: "library \<Rightarrow> buffer \<Rightarrow> buffer" where
  "hash L data = createHash_SHA256 L data"

section \<open>COSEECDHAtoPKCS\<close>

definition COSEECDHAtoPKCS :: "library \<Rightarrow> buffer \<Rightarrow> error + buffer" where
  "COSEECDHAtoPKCS L COSEPublicKey' =
     (case ext (decodeAllSync L COSEPublicKey') of
        Inl e \<Rightarrow> Inl e
      | Inr items \<Rightarrow>
         (let coseStruct = first_item items;
              tag = JBuffer [0x04]
          in case Map_get coseStruct (JNumber (- 2)) of
               Inl e \<Rightarrow> Inl e
             | Inr x \<Rightarrow>
                (case Map_get coseStruct (JNumber (- 3)) of
                   Inl e \<Rightarrow> Inl e
                 | Inr y \<Rightarrow> Buffer_concat (kMaxLength L) [tag, x, y])))"

section \<open>ASN1toPEM\<close>

text \<open>\<open>Buffer.from(s, 'hex')\<close>: two digits a byte, stopping at the first pair that is not hex.\<close>

definition hex_digit :: "char \<Rightarrow> nat option" where
  "hex_digit c =
     (let n = (of_char c :: nat)
      in if 48 \<le> n \<and> n \<le> 57 then Some (n - 48)
         else if 97 \<le> n \<and> n \<le> 102 then Some (n - 87)
         else if 65 \<le> n \<and> n \<le> 70 then Some (n - 55)
         else None)"

fun from_hex :: "string \<Rightarrow> buffer" where
  "from_hex (h # l # rest) =
     (case (hex_digit h, hex_digit l) of
        (Some a, Some b) \<Rightarrow> of_nat (16 * a + b) # from_hex rest
      | _ \<Rightarrow> [])"
| "from_hex _ = []"

text \<open>
  \<open>buf.toString('base64')\<close>: the standard alphabet, three bytes to four characters, the
  last group padded with \<open>=\<close>.
\<close>

definition b64chars :: string where
  "b64chars = ''ABCDEFGHIJKLMNOPQRSTUVWXYZabcdefghijklmnopqrstuvwxyz0123456789+/''"

fun base64 :: "buffer \<Rightarrow> string" where
  "base64 (a # b # c # rest) =
     (let n = unat a * 65536 + unat b * 256 + unat c
      in [b64chars ! (n div 262144), b64chars ! (n div 4096 mod 64),
          b64chars ! (n div 64 mod 64), b64chars ! (n mod 64)]) @ base64 rest"
| "base64 [a, b] =
     (let n = unat a * 1024 + unat b * 4
      in [b64chars ! (n div 4096), b64chars ! (n div 64 mod 64), b64chars ! (n mod 64),
          CHR ''=''])"
| "base64 [a] =
     (let n = unat a * 16
      in [b64chars ! (n div 64), b64chars ! (n mod 64), CHR ''='', CHR ''=''])"
| "base64 [] = []"

text \<open>\<open>s.substr(start, n)\<close> and \<open>Math.ceil(a / b)\<close> on natural numbers.\<close>

definition substr :: "string \<Rightarrow> nat \<Rightarrow> nat \<Rightarrow> string" where
  "substr s start n = take n (drop start s)"

definition ceil_div :: "nat \<Rightarrow> nat \<Rightarrow> nat" where
  "ceil_div a b = (a + b - 1) div b"

text \<open>
  The \<open>for\<close> loop of \<open>ASN1toPEM\<close>, from the value \<open>i\<close> of its counter and the value
  \<open>PEMKey\<close> of its accumulator.
\<close>

function PEM_lines :: "string \<Rightarrow> nat \<Rightarrow> string \<Rightarrow> string" where
  "PEM_lines b64cert i PEMKey =
     (if i < ceil_div (length b64cert) 64
      then (let start = 64 * i
            in PEM_lines b64cert (i + 1) (PEMKey @ substr b64cert start 64 @ ''\<newline>''))
      else PEMKey)"
  by pat_completeness auto
termination
  by (relation "measure (\<lambda>(b64cert, i, PEMKey). ceil_div (length b64cert) 64 - i)") auto

declare PEM_lines.simps [simp del]

text \<open>
  The \<open>Buffer.concat\<close> of \<open>ASN1toPEM\<close> joins two \<open>Buffer\<close>s of 26 and 65 bytes, a size
  that every runtime grants: it is the concatenation \<open>@\<close>.
\<close>

definition ASN1toPEM :: "jsval \<Rightarrow> error + string" where
  "ASN1toPEM v =
     (case v of
        JBuffer pkBuffer \<Rightarrow>
          (let (pkBuffer', type) =
                 (if length pkBuffer = 65 \<and> index0 pkBuffer = Some 0x04
                  then (from_hex ''3059301306072a8648ce3d020106082a8648ce3d030107034200''
                          @ pkBuffer, ''PUBLIC KEY'')
                  else (pkBuffer, ''CERTIFICATE''));
               b64cert = base64 pkBuffer';
               PEMKey = PEM_lines b64cert 0 []
           in Inr (''-----BEGIN '' @ type @ ''-----\<newline>'' @ PEMKey
                   @ ''-----END '' @ type @ ''-----\<newline>''))
      | _ \<Rightarrow> Inl (Error ''ASN1toPEM: pkBuffer must be Buffer.''))"

section \<open>verifyFidoU2fAttestation\<close>

record webAuthnResponse =
  attestationObject :: string
  clientDataJSON :: string

text \<open>
  \<open>parseMakeCredAuthData\<close> applied to a decoded value. On a \<open>Buffer\<close> it is the parser
  above. A string or an array has \<open>slice\<close> but no \<open>readUInt32BE\<close>, every other value has
  no \<open>slice\<close>: the call ends in a \<open>TypeError\<close>.
\<close>

definition parseMakeCredAuthData_value :: "jsval \<Rightarrow> error + authData" where
  "parseMakeCredAuthData_value v =
     (case v of JBuffer buffer \<Rightarrow> parseMakeCredAuthData buffer | _ \<Rightarrow> Inl TypeError)"

text \<open>\<open>flags & U2F_USER_PRESENTED\<close>, where \<open>flags\<close> may be \<open>undefined\<close>, which \<open>&\<close> reads as 0.\<close>

definition flags_and :: "byte option \<Rightarrow> byte \<Rightarrow> byte" where
  "flags_and f m = (case f of None \<Rightarrow> 0 | Some b \<Rightarrow> b AND m)"

text \<open>
  Lines 122 to 135 of the source: everything \<open>verifyFidoU2fAttestation\<close> does before its
  last line, with the three arguments of the final call as the result
  (\<open>signature\<close>, \<open>signatureBase\<close>, \<open>PEMCertificate\<close>), in the order of evaluation of the
  source. The five elements of the \<open>Buffer.concat\<close> of line 132 are \<open>Buffer\<close>s, so the call
  can fail in one way only: with a \<open>RangeError\<close>, when the signature base would be larger
  than the largest buffer.
\<close>

definition signatureArguments ::
    "library \<Rightarrow> webAuthnResponse \<Rightarrow> error + (jsval \<times> buffer \<times> string)" where
  "signatureArguments L webAuthnResponse =
     (case ext (toBuffer L (attestationObject webAuthnResponse)) of
        Inl e \<Rightarrow> Inl e
      | Inr attestationBuffer \<Rightarrow>
     (case ext (decodeAllSync L attestationBuffer) of
        Inl e \<Rightarrow> Inl e
      | Inr items \<Rightarrow>
     (let ctapMakeCredResp = first_item items
      in case getProp ctapMakeCredResp ''authData'' of
        Inl e \<Rightarrow> Inl e
      | Inr authData' \<Rightarrow>
     (case parseMakeCredAuthData_value authData' of
        Inl e \<Rightarrow> Inl e
      | Inr authrDataStruct \<Rightarrow>
     (if flags_and (flags authrDataStruct) U2F_USER_PRESENTED = 0
      then Inl (Error ''User was NOT presented durring authentication!'')
      else
     (case ext (toBuffer L (clientDataJSON webAuthnResponse)) of
        Inl e \<Rightarrow> Inl e
      | Inr clientData \<Rightarrow>
     (let clientDataHash = hash L clientData;
          reservedByte = [0x00]
      in case COSEECDHAtoPKCS L (COSEPublicKey authrDataStruct) of
        Inl e \<Rightarrow> Inl e
      | Inr publicKey \<Rightarrow>
     (case Buffer_concat (kMaxLength L)
             [JBuffer reservedByte, JBuffer (rpIdHash authrDataStruct), JBuffer clientDataHash,
              JBuffer (credID authrDataStruct), JBuffer publicKey] of
        Inl e \<Rightarrow> Inl e
      | Inr signatureBase \<Rightarrow>
     (case getProp ctapMakeCredResp ''attStmt'' of
        Inl e \<Rightarrow> Inl e
      | Inr attStmt \<Rightarrow>
     (case getProp attStmt ''x5c'' of
        Inl e \<Rightarrow> Inl e
      | Inr x5c \<Rightarrow>
     (case getIndex0 x5c of
        Inl e \<Rightarrow> Inl e
      | Inr leaf \<Rightarrow>
     (case ASN1toPEM leaf of
        Inl e \<Rightarrow> Inl e
      | Inr PEMCertificate \<Rightarrow>
     (case getProp attStmt ''sig'' of
        Inl e \<Rightarrow> Inl e
      | Inr signature \<Rightarrow> Inr (signature, signatureBase, PEMCertificate))))))))))))))"

definition verifyFidoU2fAttestation :: "library \<Rightarrow> webAuthnResponse \<Rightarrow> error + bool" where
  "verifyFidoU2fAttestation L webAuthnResponse =
     (case signatureArguments L webAuthnResponse of
        Inl e \<Rightarrow> Inl e
      | Inr (signature, signatureBase, PEMCertificate) \<Rightarrow>
          verifySignature L signature signatureBase PEMCertificate)"

section \<open>Reading a PEM block back\<close>

text \<open>
  The decoder the round-trip property is stated against. It follows the words of the
  specification (strip the BEGIN/END frame lines, base64-decode the body) and RFC 4648;
  it is not part of the source, which only ever encodes.
\<close>

text \<open>The position of a character in the base64 alphabet.\<close>

fun index_of :: "'a \<Rightarrow> 'a list \<Rightarrow> nat option" where
  "index_of c [] = None"
| "index_of c (x # xs) = (if x = c then Some 0 else map_option Suc (index_of c xs))"

definition b64_value :: "char \<Rightarrow> nat option" where
  "b64_value c = index_of c b64chars"

fun base64_decode :: "string \<Rightarrow> buffer option" where
  "base64_decode [] = Some []"
| "base64_decode (c0 # c1 # c2 # c3 # rest) =
     (if rest = [] \<and> c2 = CHR ''='' \<and> c3 = CHR ''='' then
        (case (b64_value c0, b64_value c1) of
           (Some v0, Some v1) \<Rightarrow> Some [of_nat ((v0 * 64 + v1) div 16)]
         | _ \<Rightarrow> None)
      else if rest = [] \<and> c3 = CHR ''='' then
        (case (b64_value c0, b64_value c1, b64_value c2) of
           (Some v0, Some v1, Some v2) \<Rightarrow>
             (let n = (v0 * 64 + v1) * 64 + v2
              in Some [of_nat (n div 1024), of_nat (n div 4 mod 256)])
         | _ \<Rightarrow> None)
      else
        (case (b64_value c0, b64_value c1, b64_value c2, b64_value c3) of
           (Some v0, Some v1, Some v2, Some v3) \<Rightarrow>
             (let n = ((v0 * 64 + v1) * 64 + v2) * 64 + v3
              in case base64_decode rest of
                   None \<Rightarrow> None
                 | Some bs \<Rightarrow>
                     Some (of_nat (n div 65536) # of_nat (n div 256 mod 256)
                           # of_nat (n mod 256) # bs))
         | _ \<Rightarrow> None))"
| "base64_decode _ = None"

text \<open>
  The lines of a text, each ended by a newline; \<open>cur\<close> holds the characters of the line
  being read.
\<close>

fun lines_from :: "string \<Rightarrow> string \<Rightarrow> string list" where
  "lines_from cur [] = (if cur = [] then [] else [cur])"
| "lines_from cur (c # cs) =
     (if c = CHR ''\<newline>'' then cur # lines_from [] cs else lines_from (cur @ [c]) cs)"

definition frame_line :: "string \<Rightarrow> bool" where
  "frame_line l = (take 11 l = ''-----BEGIN '' \<or> take 9 l = ''-----END '')"

definition PEM_decode :: "string \<Rightarrow> buffer option" where
  "PEM_decode pem =
     base64_decode (concat (filter (\<lambda>l. \<not> frame_line l) (lines_from [] pem)))"

section \<open>Example inputs\<close>

definition truncated_authData :: buffer where
  "truncated_authData =
     replicate 32 0x11 @ [0x41] @ [0, 0, 0, 1] @ replicate 16 0 @ [0x00, 0x40] @ [1, 2, 3]"

definition sample_authData :: buffer where
  "sample_authData =
     replicate 32 0x11 @ [0x41] @ [0, 0, 1, 2] @ replicate 16 0x22 @ [0x00, 0x02] @ [7, 8]
       @ [9, 9, 9]"

definition sample_point :: buffer where
  "sample_point =
     [0x04, 0xaa, 0xaa, 0xaa, 0xaa, 0xaa, 0xaa, 0xaa, 0xaa, 0xaa, 0xaa, 0xaa, 0xaa,
      0xaa, 0xaa, 0xaa, 0xaa, 0xaa, 0xaa, 0xaa, 0xaa, 0xaa, 0xaa, 0xaa, 0xaa, 0xaa,
      0xaa, 0xaa, 0xaa, 0xaa, 0xaa, 0xaa, 0xaa, 0xbb, 0xbb, 0xbb, 0xbb, 0xbb, 0xbb,
      0xbb, 0xbb, 0xbb, 0xbb, 0xbb, 0xbb, 0xbb, 0xbb, 0xbb, 0xbb, 0xbb, 0xbb, 0xbb,
      0xbb, 0xbb, 0xbb, 0xbb, 0xbb, 0xbb, 0xbb, 0xbb, 0xbb, 0xbb, 0xbb, 0xbb, 0xbb]"

section \<open>A test double for the libraries\<close>

text \<open>
  The theorems below hold for every library. To run the code on concrete inputs one
  library is needed: \<open>stub_library\<close> is defined on the inputs of the examples only, and
  maps each to what the real library returns on it (the base64url decoding of the string,
  the RFC 8949 decoding of the bytes, the SHA-256 digest of the message, the outcome of
  the signature verification).

  The attestation objects of the examples are the CBOR map
  \<open>{"fmt": "fido-u2f", "attStmt": {"sig": h'0102', "x5c": [h'3000']}, "authData": ad}\<close>
  for several byte strings \<open>ad\<close>; \<open>attestation_header\<close> is its encoding up to the key
  \<open>"authData"\<close>, and \<open>ad\<close> follows as a byte string with a one-byte length (\<open>0x58\<close>).
\<close>

definition attestation_header :: buffer where
  "attestation_header =
     [0xa3, 0x63, 0x66, 0x6d, 0x74, 0x68, 0x66, 0x69, 0x64, 0x6f, 0x2d, 0x75, 0x32,
      0x66, 0x67, 0x61, 0x74, 0x74, 0x53, 0x74, 0x6d, 0x74, 0xa2, 0x63, 0x73, 0x69,
      0x67, 0x42, 0x01, 0x02, 0x63, 0x78, 0x35, 0x63, 0x81, 0x42, 0x30, 0x00, 0x68,
      0x61, 0x75, 0x74, 0x68, 0x44, 0x61, 0x74, 0x61]"

definition example_attestation :: "buffer \<Rightarrow> buffer" where
  "example_attestation ad = attestation_header @ [0x58, of_nat (length ad)] @ ad"

definition example_object :: "buffer \<Rightarrow> jsval" where
  "example_object ad =
     JObject [(''fmt'', JString ''fido-u2f''),
              (''attStmt'', JObject [(''sig'', JBuffer [0x01, 0x02]),
                                      (''x5c'', JArray [JBuffer [0x30, 0x00]])]),
              (''authData'', JBuffer ad)]"

text \<open>
  The authenticator data of the examples: an \<open>rpIdHash\<close> of 32 bytes \<open>0x11\<close>, the flags,
  the counter 1, a zero \<open>aaguid\<close>, the two-byte credential id \<open>c1 c2\<close> and the key.
\<close>

definition example_authData :: "byte \<Rightarrow> buffer \<Rightarrow> buffer" where
  "example_authData fl key =
     replicate 32 0x11 @ [fl] @ [0x00, 0x00, 0x00, 0x01] @ replicate 16 0x00
       @ [0x00, 0x02] @ [0xc1, 0xc2] @ key"

text \<open>
  COSE keys. \<open>ec2_key\<close> is the EC2/P-256 key
  \<open>{1: 2, 3: -7, -1: 1, -2: h'aa..aa', -3: h'bb..bb'}\<close> with 32-byte coordinates.
  \<open>okp_key\<close> is \<open>{1: 1, -2: h'aa', -3: h'bb'}\<close>: key type 1 (OKP, not EC2) and
  coordinates of one byte. \<open>incomplete_key\<close> is \<open>{1: 2, -2: h'aa'}\<close>, with no entry \<open>-3\<close>.
\<close>

definition ec2_key :: buffer where
  "ec2_key =
     [0xa5, 0x01, 0x02, 0x03, 0x26, 0x20, 0x01, 0x21, 0x58, 0x20, 0xaa, 0xaa, 0xaa,
      0xaa, 0xaa, 0xaa, 0xaa, 0xaa, 0xaa, 0xaa, 0xaa, 0xaa, 0xaa, 0xaa, 0xaa, 0xaa,
      0xaa, 0xaa, 0xaa, 0xaa, 0xaa, 0xaa, 0xaa, 0xaa, 0xaa, 0xaa, 0xaa, 0xaa, 0xaa,
      0xaa, 0xaa, 0xaa, 0x22, 0x58, 0x20, 0xbb, 0xbb, 0xbb, 0xbb, 0xbb, 0xbb, 0xbb,
      0xbb, 0xbb, 0xbb, 0xbb, 0xbb, 0xbb, 0xbb, 0xbb, 0xbb, 0xbb, 0xbb, 0xbb, 0xbb,
      0xbb, 0xbb, 0xbb, 0xbb, 0xbb, 0xbb, 0xbb, 0xbb, 0xbb, 0xbb, 0xbb, 0xbb]"

definition okp_key :: buffer where
  "okp_key = [0xa3, 0x01, 0x01, 0x21, 0x41, 0xaa, 0x22, 0x41, 0xbb]"

definition incomplete_key :: buffer where
  "incomplete_key = [0xa2, 0x01, 0x02, 0x21, 0x41, 0xaa]"

definition ec2_key_value :: jsval where
  "ec2_key_value =
     JMap [(JNumber 1, JNumber 2), (JNumber 3, JNumber (- 7)), (JNumber (- 1), JNumber 1),
           (JNumber (- 2), JBuffer (replicate 32 0xaa)),
           (JNumber (- 3), JBuffer (replicate 32 0xbb))]"

definition okp_key_value :: jsval where
  "okp_key_value =
     JMap [(JNumber 1, JNumber 1), (JNumber (- 2), JBuffer [0xaa]),
           (JNumber (- 3), JBuffer [0xbb])]"

definition incomplete_key_value :: jsval where
  "incomplete_key_value = JMap [(JNumber 1, JNumber 2), (JNumber (- 2), JBuffer [0xaa])]"

text \<open>The client data \<open>{"type":"webauthn.create"}\<close> and its SHA-256 digest.\<close>

definition client_data :: buffer where
  "client_data =
     [0x7b, 0x22, 0x74, 0x79, 0x70, 0x65, 0x22, 0x3a, 0x22, 0x77, 0x65, 0x62, 0x61,
      0x75, 0x74, 0x68, 0x6e, 0x2e, 0x63, 0x72, 0x65, 0x61, 0x74, 0x65, 0x22, 0x7d]"

definition client_data_digest :: buffer where
  "client_data_digest =
     [0xd5, 0xd1, 0x6f, 0x5b, 0x64, 0x96, 0xd8, 0xf4, 0xdc, 0xeb, 0xe7, 0xcd, 0x74,
      0xa9, 0x13, 0x61, 0xeb, 0xd6, 0x13, 0xf3, 0x2d, 0x0f, 0x83, 0x37, 0x0b, 0xef,
      0xf9, 0x44, 0x06, 0x5e, 0xa3, 0x5c]"

text \<open>
  The base64url strings: the client data; the attestation object with the flags \<open>0x41\<close>
  and \<open>okp_key\<close>; the same with the flags \<open>0x40\<close>; with the flags \<open>0x41\<close> and \<open>ec2_key\<close>;
  the last one followed by a second CBOR item, the integer 1.
\<close>

definition client_data_string :: string where
  "client_data_string = ''eyJ0eXBlIjoid2ViYXV0aG4uY3JlYXRlIn0''"

definition okp_attestation_string :: string where
  "okp_attestation_string =
     ''o2NmbXRoZmlkby11MmZnYXR0U3RtdKJjc2lnQgECY3g1Y4FCMABoYXV0aERhdGFY''
      @ ''QhERERERERERERERERERERERERERERERERERERERERERQQAAAAEAAAAAAAAAAAAA''
      @ ''AAAAAAAAAALBwqMBASFBqiJBuw''"

definition absent_attestation_string :: string where
  "absent_attestation_string =
     ''o2NmbXRoZmlkby11MmZnYXR0U3RtdKJjc2lnQgECY3g1Y4FCMABoYXV0aERhdGFY''
      @ ''QhERERERERERERERERERERERERERERERERERERERERERQAAAAAEAAAAAAAAAAAAA''
      @ ''AAAAAAAAAALBwqMBASFBqiJBuw''"

definition ec2_attestation_string :: string where
  "ec2_attestation_string =
     ''o2NmbXRoZmlkby11MmZnYXR0U3RtdKJjc2lnQgECY3g1Y4FCMABoYXV0aERhdGFY''
      @ ''hhERERERERERERERERERERERERERERERERERERERERERQQAAAAEAAAAAAAAAAAAA''
      @ ''AAAAAAAAAALBwqUBAgMmIAEhWCCqqqqqqqqqqqqqqqqqqqqqqqqqqqqqqqqqqqqq''
      @ ''qqqqqiJYILu7u7u7u7u7u7u7u7u7u7u7u7u7u7u7u7u7u7u7u7u7''"

definition trailing_attestation_string :: string where
  "trailing_attestation_string =
     ''o2NmbXRoZmlkby11MmZnYXR0U3RtdKJjc2lnQgECY3g1Y4FCMABoYXV0aERhdGFY''
      @ ''hhERERERERERERERERERERERERERERERERERERERERERQQAAAAEAAAAAAAAAAAAA''
      @ ''AAAAAAAAAALBwqUBAgMmIAEhWCCqqqqqqqqqqqqqqqqqqqqqqqqqqqqqqqqqqqqq''
      @ ''qqqqqiJYILu7u7u7u7u7u7u7u7u7u7u7u7u7u7u7u7u7u7u7u7u7AQ''"

text \<open>
  A COSE key whose entry \<open>-2\<close> is no byte string but an object with a negative
  \<open>length\<close>: \<open>{-2: {"length": -65536}, -3: h''}\<close>.
\<close>

definition negative_length_key :: buffer where
  "negative_length_key =
     [0xa2, 0x21, 0xa1, 0x66, 0x6c, 0x65, 0x6e, 0x67, 0x74, 0x68, 0x39, 0xff, 0xff,
      0x22, 0x40]"

definition negative_length_key_value :: jsval where
  "negative_length_key_value =
     JMap [(JNumber (- 2), JObject [(''length'', JNumber (- 65536))]),
           (JNumber (- 3), JBuffer [])]"

text \<open>
  An attestation object with a real certificate. \<open>attestation_certificate\<close> is a
  self-signed X.509 certificate of a P-256 key (subject \<open>CN=a\<close>), and
  \<open>client_data_signature\<close> is an ECDSA/SHA-256 signature by that key: a valid signature of
  the client data alone, and no valid signature of the signature base (both checked with
  OpenSSL). \<open>signed_attestation\<close> is the CBOR map
  \<open>{"fmt": "fido-u2f", "attStmt": {"sig": client_data_signature,
  "x5c": [attestation_certificate]}, "authData": ad}\<close> with the flags \<open>0x41\<close> and \<open>ec2_key\<close>
  in \<open>ad\<close>, \<open>signed_object\<close> its decoding and \<open>signed_attestation_string\<close> its base64url
  encoding.
\<close>

definition attestation_certificate :: buffer where
  "attestation_certificate =
     [0x30, 0x82, 0x01, 0x6e, 0x30, 0x82, 0x01, 0x15, 0xa0, 0x03, 0x02, 0x01, 0x02,
      0x02, 0x14, 0x6b, 0x04, 0x9e, 0x93, 0x26, 0xde, 0xc5, 0x07, 0x8b, 0xf3, 0xd6,
      0x57, 0x32, 0xe3, 0x26, 0xff, 0x0e, 0x66, 0xa6, 0x58, 0x30, 0x0a, 0x06, 0x08,
      0x2a, 0x86, 0x48, 0xce, 0x3d, 0x04, 0x03, 0x02, 0x30, 0x0c, 0x31, 0x0a, 0x30,
      0x08, 0x06, 0x03, 0x55, 0x04, 0x03, 0x0c, 0x01, 0x61, 0x30, 0x20, 0x17, 0x0d,
      0x32, 0x36, 0x31, 0x31, 0x30, 0x33, 0x31, 0x37, 0x31, 0x37, 0x34, 0x35, 0x5a,
      0x18, 0x0f, 0x32, 0x31, 0x32, 0x36, 0x31, 0x30, 0x31, 0x30, 0x31, 0x37, 0x31,
      0x37, 0x34, 0x35, 0x5a, 0x30, 0x0c, 0x31, 0x0a, 0x30, 0x08, 0x06, 0x03, 0x55,
      0x04, 0x03, 0x0c, 0x01, 0x61, 0x30, 0x59, 0x30, 0x13, 0x06, 0x07, 0x2a, 0x86,
      0x48, 0xce, 0x3d, 0x02, 0x01, 0x06, 0x08, 0x2a, 0x86, 0x48, 0xce, 0x3d, 0x03,
      0x01, 0x07, 0x03, 0x42, 0x00, 0x04, 0xf9, 0xee, 0xf1, 0x46, 0xcb, 0xab, 0x1f,
      0xe8, 0x75, 0xce, 0x76, 0x8d, 0x39, 0xd6, 0x66, 0xf1, 0x92, 0x3d, 0x12, 0xb2,
      0xd2, 0xb3, 0x16, 0xb8, 0x93, 0xe9, 0xbf, 0xd4, 0xc2, 0xa8, 0x06, 0x85, 0xa7,
      0x99, 0x14, 0x26, 0x62, 0x87, 0xc2, 0x56, 0xac, 0x27, 0xb5, 0x02, 0xab, 0x5c,
      0x9f, 0x07, 0xde, 0x20, 0x6a, 0x06, 0x03, 0x96, 0x4f, 0xf2, 0x29, 0x4b, 0xbb,
      0xe6, 0xc4, 0x97, 0xdb, 0x3e, 0xa3, 0x53, 0x30, 0x51, 0x30, 0x1d, 0x06, 0x03,
      0x55, 0x1d, 0x0e, 0x04, 0x16, 0x04, 0x14, 0x58, 0x57, 0x99, 0xe3, 0x79, 0xa8,
      0x3d, 0xa5, 0x7d, 0x37, 0x2a, 0xe1, 0x2b, 0x1b, 0x81, 0xcd, 0x68, 0x93, 0xcc,
      0x76, 0x30, 0x1f, 0x06, 0x03, 0x55, 0x1d, 0x23, 0x04, 0x18, 0x30, 0x16, 0x80,
      0x14, 0x58, 0x57, 0x99, 0xe3, 0x79, 0xa8, 0x3d, 0xa5, 0x7d, 0x37, 0x2a, 0xe1,
      0x2b, 0x1b, 0x81, 0xcd, 0x68, 0x93, 0xcc, 0x76, 0x30, 0x0f, 0x06, 0x03, 0x55,
      0x1d, 0x13, 0x01, 0x01, 0xff, 0x04, 0x05, 0x30, 0x03, 0x01, 0x01, 0xff, 0x30,
      0x0a, 0x06, 0x08, 0x2a, 0x86, 0x48, 0xce, 0x3d, 0x04, 0x03, 0x02, 0x03, 0x47,
      0x00, 0x30, 0x44, 0x02, 0x20, 0x13, 0xd3, 0x2c, 0x69, 0x83, 0xab, 0xaa, 0x1f,
      0xeb, 0x5b, 0xf6, 0x89, 0xad, 0x87, 0xbd, 0x00, 0x31, 0x7f, 0xf4, 0x28, 0x77,
      0x10, 0xc8, 0x7f, 0x64, 0x8e, 0xb3, 0xa5, 0xe2, 0xb6, 0x3f, 0xc0, 0x02, 0x20,
      0x4a, 0x95, 0x46, 0xe0, 0xbb, 0xa0, 0xec, 0x40, 0x86, 0xe8, 0x32, 0xbb, 0xd6,
      0x4e, 0x2d, 0xdf, 0x71, 0x49, 0xb3, 0x5b, 0xae, 0x91, 0x3d, 0xda, 0xe0, 0xb5,
      0x77, 0x87, 0x89, 0xd8, 0x80, 0x4c]"

definition client_data_signature :: buffer where
  "client_data_signature =
     [0x30, 0x45, 0x02, 0x21, 0x00, 0xa3, 0x2e, 0x2e, 0xa1, 0xfe, 0x3b, 0xa7, 0xba,
      0xd0, 0x90, 0xab, 0xe0, 0x3e, 0x5a, 0x3d, 0x5c, 0x4b, 0x32, 0x71, 0xce, 0xd8,
      0x2c, 0xe9, 0xd9, 0xed, 0x4c, 0x96, 0xc4, 0xe1, 0x62, 0x04, 0xa6, 0x02, 0x20,
      0x77, 0xd5, 0x3c, 0xe7, 0x0b, 0x02, 0x9c, 0x92, 0x94, 0xd8, 0x0f, 0xaa, 0xd6,
      0x8a, 0xfa, 0xfd, 0x2f, 0xd0, 0x7a, 0x47, 0xcb, 0x4d, 0x10, 0x37, 0xc4, 0x55,
      0x39, 0x1b, 0x33, 0xce, 0x01, 0xfb]"

definition signed_attestation :: buffer where
  "signed_attestation =
     [0xa3, 0x63, 0x66, 0x6d, 0x74, 0x68, 0x66, 0x69, 0x64, 0x6f, 0x2d, 0x75, 0x32,
      0x66, 0x67, 0x61, 0x74, 0x74, 0x53, 0x74, 0x6d, 0x74, 0xa2, 0x63, 0x73, 0x69,
      0x67]
     @ [0x58, 0x47] @ client_data_signature
     @ [0x63, 0x78, 0x35, 0x63, 0x81, 0x59, 0x01, 0x72] @ attestation_certificate
     @ [0x68, 0x61, 0x75, 0x74, 0x68, 0x44, 0x61, 0x74, 0x61, 0x58, 0x86]
     @ example_authData 0x41 ec2_key"

definition signed_object :: jsval where
  "signed_object =
     JObject [(''fmt'', JString ''fido-u2f''),
              (''attStmt'', JObject [(''sig'', JBuffer client_data_signature),
                                      (''x5c'', JArray [JBuffer attestation_certificate])]),
              (''authData'', JBuffer (example_authData 0x41 ec2_key))]"

definition signed_attestation_string :: string where
  "signed_attestation_string =
     ''o2NmbXRoZmlkby11MmZnYXR0U3RtdKJjc2lnWEcwRQIhAKMuLqH-O6e60JCr4D5a''
      @ ''PVxLMnHO2Czp2e1MlsThYgSmAiB31TznCwKckpTYD6rWivr9L9B6R8tNEDfEVTkb''
      @ ''M84B-2N4NWOBWQFyMIIBbjCCARWgAwIBAgIUawSekybexQeL89ZXMuMm_w5mplgw''
      @ ''CgYIKoZIzj0EAwIwDDEKMAgGA1UEAwwBYTAgFw0yNjExMDMxNzE3NDVaGA8yMTI2''
      @ ''MTAxMDE3MTc0NVowDDEKMAgGA1UEAwwBYTBZMBMGByqGSM49AgEGCCqGSM49AwEH''
      @ ''A0IABPnu8UbLqx_odc52jTnWZvGSPRKy0rMWuJPpv9TCqAaFp5kUJmKHwlasJ7UC''
      @ ''q1yfB94gagYDlk_yKUu75sSX2z6jUzBRMB0GA1UdDgQWBBRYV5njeag9pX03KuEr''
      @ ''G4HNaJPMdjAfBgNVHSMEGDAWgBRYV5njeag9pX03KuErG4HNaJPMdjAPBgNVHRMB''
      @ ''Af8EBTADAQH_MAoGCCqGSM49BAMCA0cAMEQCIBPTLGmDq6of61v2ia2HvQAxf_Qo''
      @ ''dxDIf2SOs6Xitj_AAiBKlUbgu6DsQIboMrvWTi3fcUmzW66RPdrgtXeHidiATGhh''
      @ ''dXRoRGF0YViGERERERERERERERERERERERERERERERERERERERERERFBAAAAAQAA''
      @ ''AAAAAAAAAAAAAAAAAAAAAsHCpQECAyYgASFYIKqqqqqqqqqqqqqqqqqqqqqqqqqq''
      @ ''qqqqqqqqqqqqqqqqIlggu7u7u7u7u7u7u7u7u7u7u7u7u7u7u7u7u7u7u7u7u7s''"

text \<open>
  The encoding that \<open>base64url.toBuffer\<close> inverts: base64 without the padding, with
  \<open>-\<close> for \<open>+\<close> and \<open>_\<close> for \<open>/\<close>. It is used to check the strings above against their
  bytes.
\<close>

definition base64url :: "buffer \<Rightarrow> string" where
  "base64url b =
     map (\<lambda>c. if c = CHR ''+'' then CHR ''-'' else if c = CHR ''/'' then CHR ''_'' else c)
       (filter (\<lambda>c. c \<noteq> CHR ''='') (base64 b))"

text \<open>
  \<open>base64url.toBuffer\<close> on the strings above, on \<open>GA\<close>, which is the single byte
  \<open>0x18\<close>, and on the empty string. \<open>base64url.toBuffer\<close> does not throw on a string
  that is not base64url: Node's base64 decoder skips every character that is not a digit
  of the alphabet, and so does the stub before it looks the string up. The stub knows the
  strings of the examples only, and says so (\<open>Inl\<close>) on every other.
\<close>

definition base64_digit :: "char \<Rightarrow> bool" where
  "base64_digit c \<longleftrightarrow> c \<in> set b64chars \<or> c = CHR ''-'' \<or> c = CHR ''_'' \<or> c = CHR ''=''"

definition stub_toBuffer :: "string \<Rightarrow> string + buffer" where
  "stub_toBuffer s =
     (let t = filter base64_digit s
      in if t = client_data_string then Inr client_data
      else if t = okp_attestation_string
        then Inr (example_attestation (example_authData 0x41 okp_key))
      else if t = absent_attestation_string
        then Inr (example_attestation (example_authData 0x40 okp_key))
      else if t = ec2_attestation_string
        then Inr (example_attestation (example_authData 0x41 ec2_key))
      else if t = trailing_attestation_string
        then Inr (example_attestation (example_authData 0x41 ec2_key) @ [0x01])
      else if t = signed_attestation_string then Inr signed_attestation
      else if t = ''GA'' then Inr [0x18]
      else if t = [] then Inr []
      else Inl ''stub_toBuffer: not an input of the examples'')"

text \<open>
  \<open>cbor.decodeAllSync\<close> on the byte strings above. The byte \<open>0x18\<close> announces a one-byte
  integer that does not follow: the decoder throws. The empty input holds no item: the
  decoder returns the empty array.
\<close>

definition stub_decodeAllSync :: "buffer \<Rightarrow> string + jsval list" where
  "stub_decodeAllSync b =
     (if b = okp_key then Inr [okp_key_value]
      else if b = ec2_key then Inr [ec2_key_value]
      else if b = ec2_key @ [0x01] then Inr [ec2_key_value, JNumber 1]
      else if b = incomplete_key then Inr [incomplete_key_value]
      else if b = negative_length_key then Inr [negative_length_key_value]
      else if b = [0x18] then Inl ''Insufficient data''
      else if b = [] then Inr []
      else if b = example_attestation (example_authData 0x41 okp_key)
        then Inr [example_object (example_authData 0x41 okp_key)]
      else if b = example_attestation (example_authData 0x40 okp_key)
        then Inr [example_object (example_authData 0x40 okp_key)]
      else if b = example_attestation (example_authData 0x41 ec2_key)
        then Inr [example_object (example_authData 0x41 ec2_key)]
      else if b = example_attestation (example_authData 0x41 ec2_key) @ [0x01]
        then Inr [example_object (example_authData 0x41 ec2_key), JNumber 1]
      else if b = signed_attestation then Inr [signed_object]
      else Inl ''stub_decodeAllSync: not an input of the examples'')"

definition stub_SHA256 :: "buffer \<Rightarrow> buffer" where
  "stub_SHA256 data = (if data = client_data then client_data_digest else [])"

text \<open>
  Verification. Under \<open>attestation_certificate\<close> the one signature of the examples,
  \<open>client_data_signature\<close>, is valid for the client data and for nothing else. The other
  certificate of the examples is the empty DER sequence \<open>30 00\<close>, which is no
  certificate: verification throws.
\<close>

definition stub_verify :: "buffer \<Rightarrow> string \<Rightarrow> jsval \<Rightarrow> string + bool" where
  "stub_verify data publicKey signature =
     (if Inr publicKey = ASN1toPEM (JBuffer attestation_certificate)
      then Inr (data = client_data \<and> signature = JBuffer client_data_signature)
      else Inl ''PEM routines: not a certificate'')"

text \<open>
  The largest buffer is that of Node.js 14 to 21 on 64-bit platforms, \<open>2 ^ 32\<close> bytes.
\<close>

definition stub_library :: library where
  "stub_library =
     \<lparr> toBuffer = stub_toBuffer, decodeAllSync = stub_decodeAllSync,
       createHash_SHA256 = stub_SHA256, createVerify_SHA256 = stub_verify,
       kMaxLength = 4294967296 \<rparr>"

definition response :: "string \<Rightarrow> webAuthnResponse" where
  "response att = \<lparr> attestationObject = att, clientDataJSON = client_data_string \<rparr>"

section \<open>Properties of the parser\<close>

lemma readUInt32BE_short: "length b < 4 \<Longrightarrow> readUInt32BE b 0 = Inl RangeError"
  by (simp add: readUInt32BE_def)

lemma readUInt16BE_short: "length b < 2 \<Longrightarrow> readUInt16BE b 0 = Inl RangeError"
  by (simp add: readUInt16BE_def)

lemma readUInt32BE_slice:
  "n + 4 \<le> length b \<Longrightarrow>
   readUInt32BE (take 4 (drop n b)) 0 =
     Inr (unat (b ! n) * 2 ^ 24 + unat (b ! (n + 1)) * 2 ^ 16
          + unat (b ! (n + 2)) * 2 ^ 8 + unat (b ! (n + 3)))"
  by (simp add: readUInt32BE_def)

lemma readUInt16BE_slice:
  "n + 2 \<le> length b \<Longrightarrow>
   readUInt16BE (take 2 (drop n b)) 0 = Inr (unat (b ! n) * 2 ^ 8 + unat (b ! (n + 1)))"
  by (simp add: readUInt16BE_def)

lemma index0_slice: "n < length b \<Longrightarrow> index0 (take 1 (drop n b)) = Some (b ! n)"
  by (cases "drop n b") (auto simp: index0_def dest: arg_cong [where f = hd] simp: hd_drop_conv_nth)

lemma take1_slice: "n < length b \<Longrightarrow> take 1 (drop n b) = [b ! n]"
  by (simp add: take_Suc_conv_app_nth)

lemma parse_short:
  assumes "length buffer < 55"
  shows "parseMakeCredAuthData buffer = Inl RangeError"
proof (cases "length buffer < 37")
  case True
  then have "readUInt32BE (take 4 (drop 1 (drop 32 buffer))) 0 = Inl RangeError"
    by (intro readUInt32BE_short) simp
  then show ?thesis
    by (simp add: parseMakeCredAuthData_def Let_def)
next
  case False
  then have a: "33 + 4 \<le> length buffer" by simp
  have "readUInt16BE (take 2 (drop 16 (drop 4 (drop 1 (drop 32 buffer))))) 0 = Inl RangeError"
    using assms by (intro readUInt16BE_short) simp
  then show ?thesis
    using readUInt32BE_slice [OF a]
    by (simp add: parseMakeCredAuthData_def Let_def)
qed

lemma parse_long:
  assumes "55 \<le> length buffer"
  shows "parseMakeCredAuthData buffer =
     Inr \<lparr> rpIdHash = take 32 buffer,
           flagsBuf = [buffer ! 32],
           flags = Some (buffer ! 32),
           counter = unat (buffer ! 33) * 2 ^ 24 + unat (buffer ! 34) * 2 ^ 16
                     + unat (buffer ! 35) * 2 ^ 8 + unat (buffer ! 36),
           counterBuf = take 4 (drop 33 buffer),
           aaguid = take 16 (drop 37 buffer),
           credID = take (unat (buffer ! 53) * 2 ^ 8 + unat (buffer ! 54)) (drop 55 buffer),
           COSEPublicKey =
             drop (55 + (unat (buffer ! 53) * 2 ^ 8 + unat (buffer ! 54))) buffer \<rparr>"
proof -
  have a: "33 + 4 \<le> length buffer" and b: "53 + 2 \<le> length buffer" and c: "32 < length buffer"
    using assms by simp_all
  show ?thesis
    using readUInt32BE_slice [OF a] readUInt16BE_slice [OF b] index0_slice [OF c]
      take1_slice [OF c]
    by (simp add: parseMakeCredAuthData_def Let_def add.commute)
qed

text \<open>
  Claim C3. On a buffer of length exactly \<open>32 + 1 + 4 + 16 + 2 + credIdLen + keyLen\<close> whose
  big-endian 16-bit field at offset 53 holds \<open>credIdLen\<close>, the parser returns a record with
  \<open>rpIdHash\<close> the bytes 0 to 31, \<open>flags\<close> the byte 32, \<open>counter\<close> the big-endian value of
  the bytes 33 to 36, \<open>aaguid\<close> the bytes 37 to 52, \<open>credID\<close> the \<open>credIdLen\<close> bytes from
  offset 55 and \<open>COSEPublicKey\<close> the last \<open>keyLen\<close> bytes.
\<close>

theorem parseMakeCredAuthData_layout:
  assumes "length buffer = 32 + 1 + 4 + 16 + 2 + credIdLen + keyLen"
      and "unat (buffer ! 53) * 256 + unat (buffer ! 54) = credIdLen"
  shows "\<exists>r. parseMakeCredAuthData buffer = Inr r
     \<and> rpIdHash r = take 32 buffer \<and> length (rpIdHash r) = 32
     \<and> flags r = Some (buffer ! 32)
     \<and> counter r = ((unat (buffer ! 33) * 256 + unat (buffer ! 34)) * 256
                      + unat (buffer ! 35)) * 256 + unat (buffer ! 36)
     \<and> aaguid r = take 16 (drop 37 buffer) \<and> length (aaguid r) = 16
     \<and> credID r = take credIdLen (drop 55 buffer) \<and> length (credID r) = credIdLen
     \<and> COSEPublicKey r = drop (length buffer - keyLen) buffer
     \<and> length (COSEPublicKey r) = keyLen"
proof -
  have len: "55 \<le> length buffer" using assms(1) by simp
  have k: "length buffer - keyLen = 55 + credIdLen" using assms(1) by simp
  show ?thesis
    unfolding parse_long [OF len] using assms k by simp
qed

theorem parseMakeCredAuthData_layout_witness:
  "length sample_authData = 32 + 1 + 4 + 16 + 2 + 2 + 3
   \<and> unat (sample_authData ! 53) * 256 + unat (sample_authData ! 54) = 2
   \<and> (\<exists>r. parseMakeCredAuthData sample_authData = Inr r
        \<and> rpIdHash r = replicate 32 0x11 \<and> flags r = Some 0x41 \<and> counter r = 258
        \<and> aaguid r = replicate 16 0x22 \<and> credID r = [7, 8] \<and> COSEPublicKey r = [9, 9, 9])"
proof -
  have h1: "length sample_authData = 32 + 1 + 4 + 16 + 2 + 2 + 3"
    by (simp add: sample_authData_def)
  have h2: "unat (sample_authData ! 53) * 256 + unat (sample_authData ! 54) = 2"
    by (simp add: sample_authData_def nth_append)
  have e: "take 32 sample_authData = replicate 32 0x11" "sample_authData ! 32 = 0x41"
    "sample_authData ! 33 = 0" "sample_authData ! 34 = 0" "sample_authData ! 35 = 1" "sample_authData ! 36 = 2"
    "take 16 (drop 37 sample_authData) = replicate 16 0x22"
    "take 2 (drop 55 sample_authData) = [7, 8]"
    "drop (length sample_authData - 3) sample_authData = [9, 9, 9]"
    by (simp_all add: sample_authData_def nth_append)
  show ?thesis
    using parseMakeCredAuthData_layout [OF h1 h2] h1 h2 unfolding e by auto
qed

text \<open>
  Claim C4 as stated fails: \<open>slice\<close> clamps, so a declared credential-id length beyond
  the end of the buffer is no error. Here the length field says 64 and 3 bytes follow it;
  the parser returns a record with a 3-byte \<open>credID\<close> and an empty \<open>COSEPublicKey\<close>.
\<close>

theorem parseMakeCredAuthData_truncated_counterexample:
  "length truncated_authData - 55 < unat (truncated_authData ! 53) * 256 + unat (truncated_authData ! 54)
   \<and> parseMakeCredAuthData truncated_authData =
      Inr \<lparr> rpIdHash = replicate 32 0x11, flagsBuf = [0x41], flags = Some 0x41, counter = 1,
            counterBuf = [0, 0, 0, 1], aaguid = replicate 16 0, credID = [1, 2, 3],
            COSEPublicKey = [] \<rparr>"
  by (simp add: parse_long truncated_authData_def nth_append)

text \<open>
  Claim C4, amended. The parser fails, with the \<open>RangeError\<close> of an integer read, exactly
  on the buffers shorter than 55 bytes. On every buffer of at least 55 bytes it returns a
  record: \<open>credID\<close> is the declared number of bytes from offset 55, or all the bytes that
  are left when fewer remain, \<open>COSEPublicKey\<close> is everything after it (possibly nothing),
  and the lengths of the fields add up to the length of the buffer.
\<close>

theorem parseMakeCredAuthData_failure:
  "(length buffer < 55 \<longrightarrow> parseMakeCredAuthData buffer = Inl RangeError)
   \<and> (55 \<le> length buffer \<longrightarrow>
        (\<exists>r. parseMakeCredAuthData buffer = Inr r
           \<and> credID r = take (unat (buffer ! 53) * 256 + unat (buffer ! 54)) (drop 55 buffer)
           \<and> length (credID r)
               = min (unat (buffer ! 53) * 256 + unat (buffer ! 54)) (length buffer - 55)
           \<and> COSEPublicKey r = drop (55 + length (credID r)) buffer
           \<and> length (rpIdHash r) + 1 + 4 + length (aaguid r) + 2 + length (credID r)
               + length (COSEPublicKey r) = length buffer))"
proof (intro conjI impI)
  assume "length buffer < 55"
  then show "parseMakeCredAuthData buffer = Inl RangeError" by (rule parse_short)
next
  assume len: "55 \<le> length buffer"
  show "\<exists>r. parseMakeCredAuthData buffer = Inr r
           \<and> credID r = take (unat (buffer ! 53) * 256 + unat (buffer ! 54)) (drop 55 buffer)
           \<and> length (credID r)
               = min (unat (buffer ! 53) * 256 + unat (buffer ! 54)) (length buffer - 55)
           \<and> COSEPublicKey r = drop (55 + length (credID r)) buffer
           \<and> length (rpIdHash r) + 1 + 4 + length (aaguid r) + 2 + length (credID r)
               + length (COSEPublicKey r) = length buffer"
    unfolding parse_long [OF len] using len by (auto simp: min_def)
qed

theorem parseMakeCredAuthData_failure_witness:
  "length (replicate 54 (0 :: byte)) < 55
   \<and> parseMakeCredAuthData (replicate 54 0) = Inl RangeError
   \<and> 55 \<le> length truncated_authData
   \<and> (\<exists>r. parseMakeCredAuthData truncated_authData = Inr r
         \<and> credID r = [1, 2, 3] \<and> COSEPublicKey r = [])"
proof -
  have h1: "length (replicate 54 (0 :: byte)) < 55" by simp
  have h2: "55 \<le> length truncated_authData" by (simp add: truncated_authData_def)
  have e: "take (unat (truncated_authData ! 53) * 256 + unat (truncated_authData ! 54))
             (drop 55 truncated_authData) = [1, 2, 3]"
    by (simp add: truncated_authData_def nth_append)
  have d: "drop (55 + length [1 :: byte, 2, 3]) truncated_authData = []"
    by (simp add: truncated_authData_def)
  from parseMakeCredAuthData_failure [of "replicate 54 0"] h1
  have a: "parseMakeCredAuthData (replicate 54 0) = Inl RangeError" by blast
  from parseMakeCredAuthData_failure [of truncated_authData] h2
  obtain r where "parseMakeCredAuthData truncated_authData = Inr r"
    "credID r = [1, 2, 3]" "COSEPublicKey r = drop (55 + length (credID r)) truncated_authData"
    unfolding e by blast
  then have "\<exists>r. parseMakeCredAuthData truncated_authData = Inr r
         \<and> credID r = [1, 2, 3] \<and> COSEPublicKey r = []"
    using d by auto
  with a h1 h2 show ?thesis by blast
qed

section \<open>Properties of the PEM encoder\<close>

lemma index_of_nth: "distinct xs \<Longrightarrow> i < length xs \<Longrightarrow> index_of (xs ! i) xs = Some i"
proof (induction xs arbitrary: i)
  case Nil
  then show ?case by simp
next
  case (Cons x xs)
  show ?case
  proof (cases i)
    case 0
    then show ?thesis by simp
  next
    case (Suc j)
    with Cons.prems have "xs ! j \<in> set xs" "x \<notin> set xs" by auto
    then have "x \<noteq> xs ! j" by auto
    with Cons Suc show ?thesis by simp
  qed
qed

lemma distinct_b64chars: "distinct b64chars"
  by (simp add: b64chars_def)

lemma length_b64chars: "length b64chars = 64"
  by (simp add: b64chars_def)

lemma b64_value_nth: "k < 64 \<Longrightarrow> b64_value (b64chars ! k) = Some k"
  unfolding b64_value_def by (rule index_of_nth [OF distinct_b64chars]) (simp add: length_b64chars)

lemma b64chars_not_special:
  "CHR ''='' \<notin> set b64chars" "CHR ''\<newline>'' \<notin> set b64chars" "CHR ''-'' \<notin> set b64chars"
  by (simp_all add: b64chars_def)

lemma b64chars_nth_in: "k < 64 \<Longrightarrow> b64chars ! k \<in> set b64chars"
  by (simp add: length_b64chars)

lemma sextets1:
  fixes n :: nat
  shows "n div 64 * 64 + n mod 64 = n"
  by simp

lemma sextets2:
  fixes n :: nat
  shows "(n div 4096 * 64 + n div 64 mod 64) * 64 + n mod 64 = n"
proof -
  have "n div 4096 = n div 64 div 64" by (simp add: div_mult2_eq)
  then show ?thesis by simp
qed

lemma sextets3:
  fixes n :: nat
  shows "((n div 262144 * 64 + n div 4096 mod 64) * 64 + n div 64 mod 64) * 64 + n mod 64 = n"
proof -
  have a: "n div 4096 = n div 64 div 64" by (simp add: div_mult2_eq)
  have b: "n div 262144 = n div 64 div 64 div 64" by (simp add: div_mult2_eq)
  show ?thesis unfolding a b by simp
qed

lemma bytes3:
  fixes A B C :: nat
  assumes "A < 256" "B < 256" "C < 256"
  shows "(A * 65536 + B * 256 + C) div 65536 = A"
    and "(A * 65536 + B * 256 + C) div 256 mod 256 = B"
    and "(A * 65536 + B * 256 + C) mod 256 = C"
    and "(A * 65536 + B * 256 + C) div 262144 < 64"
proof -
  have e: "A * 65536 + B * 256 + C = (A * 256 + B) * 256 + C" by simp
  have d: "(A * 65536 + B * 256 + C) div 256 = A * 256 + B"
    unfolding e using assms by simp
  show "(A * 65536 + B * 256 + C) div 256 mod 256 = B"
    unfolding d using assms by simp
  have "((A * 256 + B) * 256 + C) mod 256 = C mod 256"
    by (rule mod_mult_self3)
  then show "(A * 65536 + B * 256 + C) mod 256 = C"
    unfolding e using assms by (simp only: mod_less)
  have "(A * 65536 + B * 256 + C) div 65536 = (A * 65536 + B * 256 + C) div 256 div 256"
    by (simp add: div_mult2_eq)
  then show f: "(A * 65536 + B * 256 + C) div 65536 = A"
    unfolding d using assms by simp
  have "(A * 65536 + B * 256 + C) div 262144 = (A * 65536 + B * 256 + C) div 65536 div 4"
    by (simp add: div_mult2_eq)
  then show "(A * 65536 + B * 256 + C) div 262144 < 64"
    unfolding f using assms by simp
qed

lemma bytes2:
  fixes A B :: nat
  assumes "A < 256" "B < 256"
  shows "(A * 1024 + B * 4) div 1024 = A"
    and "(A * 1024 + B * 4) div 4 mod 256 = B"
    and "(A * 1024 + B * 4) div 4096 < 64"
proof -
  have e: "A * 1024 + B * 4 = (A * 256 + B) * 4" by simp
  have d: "(A * 1024 + B * 4) div 4 = A * 256 + B"
    unfolding e by simp
  show "(A * 1024 + B * 4) div 4 mod 256 = B"
    unfolding d using assms by simp
  have "(A * 1024 + B * 4) div 1024 = (A * 1024 + B * 4) div 4 div 256"
    by (simp add: div_mult2_eq)
  then show f: "(A * 1024 + B * 4) div 1024 = A"
    unfolding d using assms by simp
  have "(A * 1024 + B * 4) div 4096 = (A * 1024 + B * 4) div 1024 div 4"
    by (simp add: div_mult2_eq)
  then show "(A * 1024 + B * 4) div 4096 < 64"
    unfolding f using assms by simp
qed

lemma bytes1:
  fixes A :: nat
  assumes "A < 256"
  shows "(A * 16) div 16 = A" and "(A * 16) div 64 < 64"
proof -
  show "(A * 16) div 16 = A" by simp
  have "(A * 16) div 64 = A * 16 div 16 div 4" by (simp add: div_mult2_eq)
  then show "(A * 16) div 64 < 64" using assms by simp
qed

lemma unat_byte_less: "unat (a :: byte) < 256"
  using unsigned_less [of a, where ?'a = nat] by simp

lemma b64chars_nth_not_pad: "k < 64 \<Longrightarrow> b64chars ! k \<noteq> CHR ''=''"
  using b64chars_nth_in [of k] b64chars_not_special(1) by metis

lemma mod64_less: "(n :: nat) mod 64 < 64"
  by simp

lemma decode_group3:
  fixes a b c :: byte
  assumes "base64_decode rest = Some bs"
  shows "base64_decode
           ([b64chars ! ((unat a * 65536 + unat b * 256 + unat c) div 262144),
             b64chars ! ((unat a * 65536 + unat b * 256 + unat c) div 4096 mod 64),
             b64chars ! ((unat a * 65536 + unat b * 256 + unat c) div 64 mod 64),
             b64chars ! ((unat a * 65536 + unat b * 256 + unat c) mod 64)] @ rest)
         = Some (a # b # c # bs)"
proof -
  define n where "n = unat a * 65536 + unat b * 256 + unat c"
  have lt: "unat a < 256" "unat b < 256" "unat c < 256"
    by (rule unat_byte_less)+
  have k0: "n div 262144 < 64"
    unfolding n_def by (rule bytes3(4) [OF lt])
  have v: "b64_value (b64chars ! (n div 262144)) = Some (n div 262144)"
    "b64_value (b64chars ! (n div 4096 mod 64)) = Some (n div 4096 mod 64)"
    "b64_value (b64chars ! (n div 64 mod 64)) = Some (n div 64 mod 64)"
    "b64_value (b64chars ! (n mod 64)) = Some (n mod 64)"
    by (rule b64_value_nth, rule k0 mod64_less)+
  have p: "b64chars ! (n div 64 mod 64) \<noteq> CHR ''=''" "b64chars ! (n mod 64) \<noteq> CHR ''=''"
    by (rule b64chars_nth_not_pad, rule mod64_less)+
  have by0: "(of_nat (n div 65536) :: byte) = a"
    unfolding n_def bytes3(1) [OF lt] by simp
  have by1: "(of_nat (n div 256 mod 256) :: byte) = b"
    unfolding n_def bytes3(2) [OF lt] by simp
  have by2: "(of_nat (n mod 256) :: byte) = c"
    unfolding n_def bytes3(3) [OF lt] by simp
  have "base64_decode
           ([b64chars ! (n div 262144), b64chars ! (n div 4096 mod 64),
             b64chars ! (n div 64 mod 64), b64chars ! (n mod 64)] @ rest)
         = Some (a # b # c # bs)"
    by (simp only: append_Cons append_Nil base64_decode.simps v p simp_thms if_False
        option.case prod.case Let_def sextets3 by0 by1 by2 assms)
  then show ?thesis unfolding n_def .
qed

lemma decode_group2:
  fixes a b :: byte
  shows "base64_decode
           [b64chars ! ((unat a * 1024 + unat b * 4) div 4096),
            b64chars ! ((unat a * 1024 + unat b * 4) div 64 mod 64),
            b64chars ! ((unat a * 1024 + unat b * 4) mod 64), CHR ''='']
         = Some [a, b]"
proof -
  define n where "n = unat a * 1024 + unat b * 4"
  have lt: "unat a < 256" "unat b < 256"
    by (rule unat_byte_less)+
  have k0: "n div 4096 < 64"
    unfolding n_def by (rule bytes2(3) [OF lt])
  have v: "b64_value (b64chars ! (n div 4096)) = Some (n div 4096)"
    "b64_value (b64chars ! (n div 64 mod 64)) = Some (n div 64 mod 64)"
    "b64_value (b64chars ! (n mod 64)) = Some (n mod 64)"
    by (rule b64_value_nth, rule k0 mod64_less)+
  have p: "b64chars ! (n mod 64) \<noteq> CHR ''=''"
    by (rule b64chars_nth_not_pad, rule mod64_less)
  have by0: "(of_nat (n div 1024) :: byte) = a"
    unfolding n_def bytes2(1) [OF lt] by simp
  have by1: "(of_nat (n div 4 mod 256) :: byte) = b"
    unfolding n_def bytes2(2) [OF lt] by simp
  have "base64_decode
           [b64chars ! (n div 4096), b64chars ! (n div 64 mod 64), b64chars ! (n mod 64),
            CHR ''='']
         = Some [a, b]"
    by (simp only: base64_decode.simps v p simp_thms if_False if_True
        option.case prod.case Let_def sextets2 by0 by1)
  then show ?thesis unfolding n_def .
qed

lemma decode_group1:
  fixes a :: byte
  shows "base64_decode
           [b64chars ! ((unat a * 16) div 64), b64chars ! ((unat a * 16) mod 64),
            CHR ''='', CHR ''='']
         = Some [a]"
proof -
  define n where "n = unat a * 16"
  have lt: "unat a < 256"
    by (rule unat_byte_less)
  have k0: "n div 64 < 64"
    unfolding n_def by (rule bytes1(2) [OF lt])
  have v: "b64_value (b64chars ! (n div 64)) = Some (n div 64)"
    "b64_value (b64chars ! (n mod 64)) = Some (n mod 64)"
    by (rule b64_value_nth, rule k0 mod64_less)+
  have by0: "(of_nat (n div 16) :: byte) = a"
    unfolding n_def by simp
  have "base64_decode [b64chars ! (n div 64), b64chars ! (n mod 64), CHR ''='', CHR ''='']
         = Some [a]"
    by (simp only: base64_decode.simps v simp_thms if_True
        option.case prod.case Let_def sextets1 by0)
  then show ?thesis unfolding n_def .
qed

lemma base64_decode_base64: "base64_decode (base64 bs) = Some bs"
proof (induction bs rule: base64.induct)
  case (1 a b c rest)
  then show ?case
    using decode_group3 [of "base64 rest" rest a b c] by (simp add: Let_def)
next
  case (2 a b)
  show ?case using decode_group2 [of a b] by (simp add: Let_def)
next
  case (3 a)
  show ?case using decode_group1 [of a] by (simp add: Let_def)
next
  case 4
  show ?case by simp
qed

lemma base64_chars: "set (base64 bs) \<subseteq> set b64chars \<union> {CHR ''=''}"
proof (induction bs rule: base64.induct)
  case (1 a b c rest)
  have lt: "unat a < 256" "unat b < 256" "unat c < 256"
    by (rule unat_byte_less)+
  show ?case
    using 1 b64chars_nth_in [OF bytes3(4) [OF lt]] b64chars_nth_in [OF mod64_less]
    by (simp add: Let_def)
next
  case (2 a b)
  have lt: "unat a < 256" "unat b < 256"
    by (rule unat_byte_less)+
  show ?case
    using b64chars_nth_in [OF bytes2(3) [OF lt]] b64chars_nth_in [OF mod64_less]
    by (simp add: Let_def)
next
  case (3 a)
  have lt: "unat a < 256"
    by (rule unat_byte_less)
  show ?case
    using b64chars_nth_in [OF bytes1(2) [OF lt]] b64chars_nth_in [OF mod64_less]
    by (simp add: Let_def)
next
  case 4
  show ?case by simp
qed

lemma ceil_div_64: "i < ceil_div n 64 \<longleftrightarrow> 64 * i < n"
  unfolding ceil_div_def by arith

lemma PEM_lines_structure:
  "\<exists>ls. PEM_lines s i acc = acc @ concat (map (\<lambda>l. l @ ''\<newline>'') ls)
      \<and> concat ls = drop (64 * i) s
      \<and> (\<forall>l \<in> set ls. 0 < length l \<and> length l \<le> 64)
      \<and> (\<forall>l \<in> set (butlast ls). length l = 64)"
proof (induction s i acc rule: PEM_lines.induct)
  case (1 s i acc)
  show ?case
  proof (cases "i < ceil_div (length s) 64")
    case False
    then have "drop (64 * i) s = []" by (simp add: ceil_div_64)
    moreover have "PEM_lines s i acc = acc"
      using False by (subst PEM_lines.simps) simp
    ultimately show ?thesis by (intro exI [of _ "[]"]) simp
  next
    case True
    define l0 where "l0 = substr s (64 * i) 64"
    have lt: "64 * i < length s" using True by (simp add: ceil_div_64)
    have l0: "0 < length l0" "length l0 \<le> 64"
      using lt by (simp_all add: l0_def substr_def)
    from "1.IH" [OF True refl]
    obtain ls where ls:
      "PEM_lines s (i + 1) (acc @ l0 @ ''\<newline>'')
         = (acc @ l0 @ ''\<newline>'') @ concat (map (\<lambda>l. l @ ''\<newline>'') ls)"
      "concat ls = drop (64 * (i + 1)) s"
      "\<forall>l \<in> set ls. 0 < length l \<and> length l \<le> 64"
      "\<forall>l \<in> set (butlast ls). length l = 64"
      unfolding l0_def by blast
    have step: "PEM_lines s i acc = PEM_lines s (i + 1) (acc @ l0 @ ''\<newline>'')"
      using True by (subst PEM_lines.simps) (simp add: l0_def Let_def)
    have a: "PEM_lines s i acc = acc @ concat (map (\<lambda>l. l @ ''\<newline>'') (l0 # ls))"
      unfolding step ls(1) by simp
    have "drop (64 * (i + 1)) s = drop 64 (drop (64 * i) s)"
      by (simp add: add.commute)
    then have "concat (l0 # ls) = take 64 (drop (64 * i) s) @ drop 64 (drop (64 * i) s)"
      using ls(2) by (simp only: concat.simps l0_def substr_def)
    then have b: "concat (l0 # ls) = drop (64 * i) s"
      by (simp only: append_take_drop_id)
    have c: "\<forall>l \<in> set (l0 # ls). 0 < length l \<and> length l \<le> 64"
      using ls(3) l0 by simp
    have d: "\<forall>l \<in> set (butlast (l0 # ls)). length l = 64"
    proof (cases "ls = []")
      case True
      then show ?thesis by simp
    next
      case False
      then obtain l ls' where "ls = l # ls'" by (cases ls) auto
      with ls(3) have "concat ls \<noteq> []" by auto
      with ls(2) have "64 * (i + 1) < length s" by simp
      then have "length l0 = 64" by (simp add: l0_def substr_def)
      with ls(4) False show ?thesis by simp
    qed
    from a b c d show ?thesis by blast
  qed
qed

lemma asn1_prefix:
  "from_hex ''3059301306072a8648ce3d020106082a8648ce3d030107034200'' =
     [0x30, 0x59, 0x30, 0x13, 0x06, 0x07, 0x2a, 0x86, 0x48, 0xce, 0x3d, 0x02, 0x01,
      0x06, 0x08, 0x2a, 0x86, 0x48, 0xce, 0x3d, 0x03, 0x01, 0x07, 0x03, 0x42, 0x00]"
  by code_simp

lemma index0_hd: "index0 b = Some x \<longleftrightarrow> b \<noteq> [] \<and> b ! 0 = x"
  by (cases b) (simp_all add: index0_def)

lemma ASN1toPEM_run:
  "ASN1toPEM (JBuffer pkBuffer) =
      Inr (''-----BEGIN ''
           @ (if length pkBuffer = 65 \<and> index0 pkBuffer = Some 0x04
              then ''PUBLIC KEY'' else ''CERTIFICATE'')
           @ ''-----\<newline>''
           @ PEM_lines (base64 (if length pkBuffer = 65 \<and> index0 pkBuffer = Some 0x04
              then from_hex ''3059301306072a8648ce3d020106082a8648ce3d030107034200'' @ pkBuffer
              else pkBuffer)) 0 []
           @ ''-----END ''
           @ (if length pkBuffer = 65 \<and> index0 pkBuffer = Some 0x04
              then ''PUBLIC KEY'' else ''CERTIFICATE'')
           @ ''-----\<newline>'')"
  unfolding ASN1toPEM_def
  by (simp del: from_hex.simps PEM_lines.simps)

lemma ASN1toPEM_structure:
  "\<exists>ls. ASN1toPEM (JBuffer pkBuffer) =
          Inr (''-----BEGIN ''
               @ (if length pkBuffer = 65 \<and> pkBuffer ! 0 = 0x04
                  then ''PUBLIC KEY'' else ''CERTIFICATE'')
               @ ''-----\<newline>''
               @ concat (map (\<lambda>l. l @ ''\<newline>'') ls)
               @ ''-----END ''
               @ (if length pkBuffer = 65 \<and> pkBuffer ! 0 = 0x04
                  then ''PUBLIC KEY'' else ''CERTIFICATE'')
               @ ''-----\<newline>'')
      \<and> concat ls =
          base64 (if length pkBuffer = 65 \<and> pkBuffer ! 0 = 0x04
                  then from_hex ''3059301306072a8648ce3d020106082a8648ce3d030107034200''
                       @ pkBuffer
                  else pkBuffer)
      \<and> (\<forall>l \<in> set ls. 0 < length l \<and> length l \<le> 64)
      \<and> (\<forall>l \<in> set (butlast ls). length l = 64)"
proof -
  define point where "point \<longleftrightarrow> length pkBuffer = 65 \<and> pkBuffer ! 0 = 0x04"
  define der where
    "der = (if point
            then from_hex ''3059301306072a8648ce3d020106082a8648ce3d030107034200'' @ pkBuffer
            else pkBuffer)"
  define type where "type = (if point then ''PUBLIC KEY'' else ''CERTIFICATE'')"
  have cond: "(length pkBuffer = 65 \<and> index0 pkBuffer = Some 0x04) = point"
    unfolding point_def index0_hd by auto
  have run: "ASN1toPEM (JBuffer pkBuffer) =
      Inr (''-----BEGIN '' @ type @ ''-----\<newline>'' @ PEM_lines (base64 der) 0 []
           @ ''-----END '' @ type @ ''-----\<newline>'')"
    unfolding ASN1toPEM_run cond der_def type_def ..
  from PEM_lines_structure [of "base64 der" 0 "[]"]
  obtain ls where ls:
    "PEM_lines (base64 der) 0 [] = concat (map (\<lambda>l. l @ ''\<newline>'') ls)"
    "concat ls = base64 der"
    "\<forall>l \<in> set ls. 0 < length l \<and> length l \<le> 64"
    "\<forall>l \<in> set (butlast ls). length l = 64"
    by auto
  have "ASN1toPEM (JBuffer pkBuffer) =
          Inr (''-----BEGIN '' @ type @ ''-----\<newline>''
               @ concat (map (\<lambda>l. l @ ''\<newline>'') ls)
               @ ''-----END '' @ type @ ''-----\<newline>'')
      \<and> concat ls = base64 der
      \<and> (\<forall>l \<in> set ls. 0 < length l \<and> length l \<le> 64)
      \<and> (\<forall>l \<in> set (butlast ls). length l = 64)"
    using ls unfolding run by (simp only: simp_thms)
  then show ?thesis
    unfolding der_def type_def point_def by (intro exI [where x = ls])
qed

text \<open>
  Claim C7. On every buffer, \<open>ASN1toPEM\<close> returns a PEM block. When the buffer is a raw
  point (65 bytes, the first one \<open>0x04\<close>) the label is \<open>PUBLIC KEY\<close> and the encoded
  bytes are the 26-byte prefix \<open>3059301306072a8648ce3d020106082a8648ce3d030107034200\<close>
  followed by the point; otherwise the label is \<open>CERTIFICATE\<close> and the encoded bytes are
  the buffer itself. The block is the line \<open>-----BEGIN label-----\<close>, the lines of the
  body and the line \<open>-----END label-----\<close>, each ended by a newline; the lines of the body,
  put end to end, are the base64 text of the encoded bytes, every line has from 1 to 64
  characters, and every line but the last has exactly 64.
\<close>

theorem ASN1toPEM_format:
  "\<exists>ls. ASN1toPEM (JBuffer pkBuffer) =
          Inr (''-----BEGIN ''
               @ (if length pkBuffer = 65 \<and> pkBuffer ! 0 = 0x04
                  then ''PUBLIC KEY'' else ''CERTIFICATE'')
               @ ''-----\<newline>''
               @ concat (map (\<lambda>l. l @ ''\<newline>'') ls)
               @ ''-----END ''
               @ (if length pkBuffer = 65 \<and> pkBuffer ! 0 = 0x04
                  then ''PUBLIC KEY'' else ''CERTIFICATE'')
               @ ''-----\<newline>'')
      \<and> concat ls =
          base64 (if length pkBuffer = 65 \<and> pkBuffer ! 0 = 0x04
                  then [0x30, 0x59, 0x30, 0x13, 0x06, 0x07, 0x2a, 0x86, 0x48, 0xce, 0x3d,
                        0x02, 0x01, 0x06, 0x08, 0x2a, 0x86, 0x48, 0xce, 0x3d, 0x03, 0x01,
                        0x07, 0x03, 0x42, 0x00] @ pkBuffer
                  else pkBuffer)
      \<and> (\<forall>l \<in> set ls. 0 < length l \<and> length l \<le> 64)
      \<and> (\<forall>l \<in> set (butlast ls). length l = 64)"
  using ASN1toPEM_structure [of pkBuffer] unfolding asn1_prefix .

lemma lines_from_line:
  "CHR ''\<newline>'' \<notin> set l \<Longrightarrow>
   lines_from cur (l @ CHR ''\<newline>'' # rest) = (cur @ l) # lines_from [] rest"
  by (induction l arbitrary: cur) auto

lemma lines_from_concat:
  "\<forall>l \<in> set ls. CHR ''\<newline>'' \<notin> set l \<Longrightarrow>
   lines_from [] (concat (map (\<lambda>l. l @ ''\<newline>'') ls) @ rest) = ls @ lines_from [] rest"
proof (induction ls)
  case Nil
  then show ?case by simp
next
  case (Cons l ls)
  then have "lines_from [] (l @ CHR ''\<newline>'' # (concat (map (\<lambda>l. l @ ''\<newline>'') ls) @ rest))
      = l # lines_from [] (concat (map (\<lambda>l. l @ ''\<newline>'') ls) @ rest)"
    using lines_from_line [of l "[]"] by simp
  with Cons show ?case by simp
qed

lemma frame_line_dash: "frame_line l \<Longrightarrow> CHR ''-'' \<in> set l"
  unfolding frame_line_def by (cases l) auto

lemma frame_line_BEGIN: "frame_line (''-----BEGIN '' @ t)"
  by (simp add: frame_line_def)

lemma frame_line_END: "frame_line (''-----END '' @ t)"
  by (simp add: frame_line_def)

lemma PEM_decode_frame:
  assumes "CHR ''\<newline>'' \<notin> set t"
      and "\<forall>l \<in> set ls. CHR ''\<newline>'' \<notin> set l \<and> CHR ''-'' \<notin> set l"
  shows "PEM_decode (''-----BEGIN '' @ t @ ''-----\<newline>''
                     @ concat (map (\<lambda>l. l @ ''\<newline>'') ls)
                     @ ''-----END '' @ t @ ''-----\<newline>'')
         = base64_decode (concat ls)"
proof -
  have n1: "CHR ''\<newline>'' \<notin> set (''-----BEGIN '' @ t @ ''-----'')"
    and n2: "CHR ''\<newline>'' \<notin> set (''-----END '' @ t @ ''-----'')"
    using assms(1) by simp_all
  have nl: "\<forall>l \<in> set ls. CHR ''\<newline>'' \<notin> set l" using assms(2) by blast
  have "lines_from [] ((''-----BEGIN '' @ t @ ''-----'') @ CHR ''\<newline>''
            # (concat (map (\<lambda>l. l @ ''\<newline>'') ls)
               @ ((''-----END '' @ t @ ''-----'') @ CHR ''\<newline>'' # [])))
        = (''-----BEGIN '' @ t @ ''-----'') # ls @ [''-----END '' @ t @ ''-----'']"
    unfolding lines_from_line [OF n1] lines_from_concat [OF nl] lines_from_line [OF n2]
    by simp
  then have split: "lines_from [] (''-----BEGIN '' @ t @ ''-----\<newline>''
                     @ concat (map (\<lambda>l. l @ ''\<newline>'') ls)
                     @ ''-----END '' @ t @ ''-----\<newline>'')
        = (''-----BEGIN '' @ t @ ''-----'') # ls @ [''-----END '' @ t @ ''-----'']"
    by simp
  have keep: "filter (\<lambda>l. \<not> frame_line l) ls = ls"
    using assms(2) frame_line_dash by (auto simp: filter_id_conv)
  show ?thesis
    unfolding PEM_decode_def split
    using frame_line_BEGIN [of "t @ ''-----''"] frame_line_END [of "t @ ''-----''"]
    by (simp add: keep)
qed

text \<open>
  Claim C8. Reading back the output of \<open>ASN1toPEM\<close> (dropping the BEGIN and END lines,
  joining the other lines and base64-decoding them) gives exactly the bytes that were
  wrapped: the buffer itself on the certificate path, the 26-byte prefix followed by the
  point on the public-key path.
\<close>

theorem PEM_round_trip:
  "\<exists>pem. ASN1toPEM (JBuffer pkBuffer) = Inr pem
      \<and> PEM_decode pem =
          Some (if length pkBuffer = 65 \<and> pkBuffer ! 0 = 0x04
                then [0x30, 0x59, 0x30, 0x13, 0x06, 0x07, 0x2a, 0x86, 0x48, 0xce, 0x3d,
                      0x02, 0x01, 0x06, 0x08, 0x2a, 0x86, 0x48, 0xce, 0x3d, 0x03, 0x01,
                      0x07, 0x03, 0x42, 0x00] @ pkBuffer
                else pkBuffer)"
proof -
  define type where "type = (if length pkBuffer = 65 \<and> pkBuffer ! 0 = 0x04
                  then ''PUBLIC KEY'' else ''CERTIFICATE'')"
  define der where "der = (if length pkBuffer = 65 \<and> pkBuffer ! 0 = 0x04
                  then from_hex ''3059301306072a8648ce3d020106082a8648ce3d030107034200''
                       @ pkBuffer
                  else pkBuffer)"
  from ASN1toPEM_structure [of pkBuffer]
  obtain ls where ls:
    "ASN1toPEM (JBuffer pkBuffer) =
       Inr (''-----BEGIN '' @ type @ ''-----\<newline>''
            @ concat (map (\<lambda>l. l @ ''\<newline>'') ls)
            @ ''-----END '' @ type @ ''-----\<newline>'')"
    "concat ls = base64 der"
    unfolding type_def der_def by blast
  have t: "CHR ''\<newline>'' \<notin> set type" by (simp add: type_def)
  have "set (concat ls) \<subseteq> set b64chars \<union> {CHR ''=''}"
    unfolding ls(2) by (rule base64_chars)
  then have c: "\<forall>l \<in> set ls. CHR ''\<newline>'' \<notin> set l \<and> CHR ''-'' \<notin> set l"
    using b64chars_not_special by auto
  have "PEM_decode (''-----BEGIN '' @ type @ ''-----\<newline>''
            @ concat (map (\<lambda>l. l @ ''\<newline>'') ls)
            @ ''-----END '' @ type @ ''-----\<newline>'') = Some der"
    unfolding PEM_decode_frame [OF t c] ls(2) by (rule base64_decode_base64)
  with ls(1) have "ASN1toPEM (JBuffer pkBuffer) =
       Inr (''-----BEGIN '' @ type @ ''-----\<newline>''
            @ concat (map (\<lambda>l. l @ ''\<newline>'') ls)
            @ ''-----END '' @ type @ ''-----\<newline>'')
     \<and> PEM_decode (''-----BEGIN '' @ type @ ''-----\<newline>''
            @ concat (map (\<lambda>l. l @ ''\<newline>'') ls)
            @ ''-----END '' @ type @ ''-----\<newline>'') = Some der"
    by (simp only: simp_thms)
  then have "\<exists>pem. ASN1toPEM (JBuffer pkBuffer) = Inr pem \<and> PEM_decode pem = Some der"
    by (intro exI [where x = "''-----BEGIN '' @ type @ ''-----\<newline>''
            @ concat (map (\<lambda>l. l @ ''\<newline>'') ls)
            @ ''-----END '' @ type @ ''-----\<newline>''"])
  then show ?thesis unfolding der_def asn1_prefix .
qed

lemma two_lines:
  assumes c: "concat ls = s" and lo: "64 < length s" and hi: "length s \<le> 128"
      and a: "\<forall>l \<in> set ls. 0 < length l \<and> length l \<le> 64"
      and b: "\<forall>l \<in> set (butlast ls). length l = 64"
  shows "ls = [take 64 s, drop 64 s]"
proof -
  from c lo obtain l1 ls1 where ls: "ls = l1 # ls1" by (cases ls) auto
  have ne1: "ls1 \<noteq> []"
  proof
    assume "ls1 = []"
    with ls c have "l1 = s" by simp
    with a ls lo show False by auto
  qed
  with b ls have l1: "length l1 = 64" by simp
  from c ls have s: "s = l1 @ concat ls1" by simp
  from ne1 obtain l2 ls2 where ls1: "ls1 = l2 # ls2" by (cases ls1) auto
  have e2: "ls2 = []"
  proof (rule ccontr)
    assume n: "ls2 \<noteq> []"
    with b ls ls1 have "length l2 = 64" by simp
    moreover from n obtain l3 ls3 where "ls2 = l3 # ls3" by (cases ls2) auto
    with a ls ls1 have "0 < length (concat ls2)" by auto
    ultimately have "128 < length s" using s l1 ls1 by simp
    with hi show False by simp
  qed
  show ?thesis using s l1 ls ls1 e2 by simp
qed

lemma sample_point_base64:
  "base64 ([0x30, 0x59, 0x30, 0x13, 0x06, 0x07, 0x2a, 0x86, 0x48, 0xce, 0x3d,
            0x02, 0x01, 0x06, 0x08, 0x2a, 0x86, 0x48, 0xce, 0x3d, 0x03, 0x01,
            0x07, 0x03, 0x42, 0x00] @ sample_point)
   = ''MFkwEwYHKoZIzj0CAQYIKoZIzj0DAQcDQgAEqqqqqqqqqqqqqqqqqqqqqqqqqqqqqqqqqqqqqqqqqqq7u7u7u7u7u7u7u7u7u7u7u7u7u7u7u7u7u7u7u7u7uw==''"
  unfolding sample_point_def by (simp add: b64chars_def)

theorem ASN1toPEM_format_witness:
  "ASN1toPEM (JBuffer sample_point) =
     Inr (''-----BEGIN PUBLIC KEY-----\<newline>''
          @ ''MFkwEwYHKoZIzj0CAQYIKoZIzj0DAQcDQgAEqqqqqqqqqqqqqqqqqqqqqqqqqqqq\<newline>''
          @ ''qqqqqqqqqqqqqqq7u7u7u7u7u7u7u7u7u7u7u7u7u7u7u7u7u7u7u7u7uw==\<newline>''
          @ ''-----END PUBLIC KEY-----\<newline>'')"
proof -
  have p: "length sample_point = 65 \<and> sample_point ! 0 = 0x04"
    by (simp add: sample_point_def)
  from ASN1toPEM_format [of sample_point]
  obtain ls where ls:
    "ASN1toPEM (JBuffer sample_point) =
       Inr (''-----BEGIN '' @ ''PUBLIC KEY'' @ ''-----\<newline>''
            @ concat (map (\<lambda>l. l @ ''\<newline>'') ls)
            @ ''-----END '' @ ''PUBLIC KEY'' @ ''-----\<newline>'')"
    "concat ls = ''MFkwEwYHKoZIzj0CAQYIKoZIzj0DAQcDQgAEqqqqqqqqqqqqqqqqqqqqqqqqqqqqqqqqqqqqqqqqqqq7u7u7u7u7u7u7u7u7u7u7u7u7u7u7u7u7u7u7u7u7uw==''"
    "\<forall>l \<in> set ls. 0 < length l \<and> length l \<le> 64"
    "\<forall>l \<in> set (butlast ls). length l = 64"
    unfolding if_P [OF p] sample_point_base64 by blast
  have "ls = [take 64 ''MFkwEwYHKoZIzj0CAQYIKoZIzj0DAQcDQgAEqqqqqqqqqqqqqqqqqqqqqqqqqqqqqqqqqqqqqqqqqqq7u7u7u7u7u7u7u7u7u7u7u7u7u7u7u7u7u7u7u7u7uw=='',
               drop 64 ''MFkwEwYHKoZIzj0CAQYIKoZIzj0DAQcDQgAEqqqqqqqqqqqqqqqqqqqqqqqqqqqqqqqqqqqqqqqqqqq7u7u7u7u7u7u7u7u7u7u7u7u7u7u7u7u7u7u7u7u7uw=='']"
    by (rule two_lines [OF ls(2) _ _ ls(3) ls(4)]) simp_all
  then have "ls = [''MFkwEwYHKoZIzj0CAQYIKoZIzj0DAQcDQgAEqqqqqqqqqqqqqqqqqqqqqqqqqqqq'',
                   ''qqqqqqqqqqqqqqq7u7u7u7u7u7u7u7u7u7u7u7u7u7u7u7u7u7u7u7u7uw=='']"
    by simp
  with ls(1) show ?thesis by simp
qed

lemma certificate_PEM:
  "ASN1toPEM (JBuffer [0x30, 0x00]) =
     Inr ''-----BEGIN CERTIFICATE-----\<newline>MAA=\<newline>-----END CERTIFICATE-----\<newline>''"
  by (simp add: ASN1toPEM_def index0_def b64chars_def PEM_lines.simps ceil_div_def substr_def)

theorem PEM_round_trip_witness:
  "PEM_decode ''-----BEGIN CERTIFICATE-----\<newline>MAA=\<newline>-----END CERTIFICATE-----\<newline>''
     = Some [0x30, 0x00]"
  using PEM_round_trip [of "[0x30, 0x00]"] unfolding certificate_PEM by simp

section \<open>Properties of the COSE key conversion\<close>

lemma ext_simps [simp]: "ext (Inl m) = Inl (External m)" "ext (Inr v) = Inr v"
  by (simp_all add: ext_def)

lemma Map_get_JMap:
  "Map_get (JMap kvs) k = Inr (case map_of kvs k of None \<Rightarrow> JUndefined | Some u \<Rightarrow> u)"
  by (simp add: Map_get_def)

lemma Map_get_other: "(\<forall>kvs. v \<noteq> JMap kvs) \<Longrightarrow> Map_get v k = Inl TypeError"
  by (cases v) (auto simp: Map_get_def)

lemma lookup_buffer:
  "(case map_of kvs k of None \<Rightarrow> JUndefined | Some u \<Rightarrow> u) = JBuffer b
     \<longleftrightarrow> map_of kvs k = Some (JBuffer b)"
  by (cases "map_of kvs k") auto

lemma lookup_undefined:
  "map_of kvs k = None \<Longrightarrow> (case map_of kvs k of None \<Rightarrow> JUndefined | Some u \<Rightarrow> u) = JUndefined"
  by simp

subsection \<open>Buffer.concat\<close>

lemma get_length_JBuffer: "get_length (JBuffer b) = Inr (JNumber (int (length b)))"
  by (simp add: get_length_def)


lemma add_length_size: "add_length (Length n) (JNumber (int k)) = Length (n + int k)"
  by (simp add: add_length_def)




lemma allocUnsafe_error_None:
  "allocUnsafe_error m sz = None \<longleftrightarrow> (\<exists>n. sz = Length n \<and> 0 \<le> n \<and> n \<le> m)"
  by (cases sz) (auto simp: allocUnsafe_error_def)




lemma sum_lengths_buffers:
  "sum_lengths (Length n) (map JBuffer bs) = Inr (Length (n + int (length (concat bs))))"
  by (induction bs arbitrary: n) (simp_all add: get_length_JBuffer add_length_size)

lemma copy_buffers_buffers: "copy_buffers (map JBuffer bs) = Inr (concat bs)"
  by (induction bs) simp_all

lemma Buffer_concat_buffers:
  "bs \<noteq> [] \<Longrightarrow>
   Buffer_concat m (map JBuffer bs) =
     (if m < int (length (concat bs)) then Inl RangeError else Inr (concat bs))"
  by (simp add: Buffer_concat_def sum_lengths_buffers copy_buffers_buffers
      allocUnsafe_error_def)

lemma Buffer_concat5:
  "Buffer_concat m [JBuffer a, JBuffer b, JBuffer c, JBuffer d, JBuffer e] =
     (if m < int (length (a @ b @ c @ d @ e)) then Inl RangeError
      else Inr (a @ b @ c @ d @ e))"
  using Buffer_concat_buffers [of "[a, b, c, d, e]" m] by simp

lemma sum_lengths_buffers3:
  "sum_lengths (Length 0) [JBuffer t, JBuffer x, JBuffer y]
     = Inr (Length (int (length t) + int (length x) + int (length y)))"
  by (simp add: get_length_JBuffer add_length_size)

lemma Buffer_concat3:
  "int (length t) + int (length x) + int (length y) \<le> m \<Longrightarrow>
   Buffer_concat m [JBuffer t, JBuffer x, JBuffer y] = Inr (t @ x @ y)"
  unfolding Buffer_concat_def sum_lengths_buffers3
  by (simp add: allocUnsafe_error_def)

lemma copy_buffers3_Inr:
  "copy_buffers [JBuffer t, vx, vy] = Inr p \<Longrightarrow>
   \<exists>x y. vx = JBuffer x \<and> vy = JBuffer y \<and> p = t @ x @ y"
  by (cases vx; cases vy) auto

lemma Buffer_concat3_Inr:
  assumes "Buffer_concat m [JBuffer t, vx, vy] = Inr p"
  shows "\<exists>x y. vx = JBuffer x \<and> vy = JBuffer y \<and> p = t @ x @ y
           \<and> int (length t) + int (length x) + int (length y) \<le> m"
proof -
  from assms obtain sz where s: "sum_lengths (Length 0) [JBuffer t, vx, vy] = Inr sz"
    and a: "allocUnsafe_error m sz = None"
    and c: "copy_buffers [JBuffer t, vx, vy] = Inr p"
    by (auto simp: Buffer_concat_def split: sum.splits option.splits)
  from copy_buffers3_Inr [OF c] obtain x y where
    xy: "vx = JBuffer x" "vy = JBuffer y" "p = t @ x @ y" by blast
  from s have "sz = Length (int (length t) + int (length x) + int (length y))"
    unfolding xy sum_lengths_buffers3 by simp
  with a have "int (length t) + int (length x) + int (length y) \<le> m"
    by (simp add: allocUnsafe_error_def split: if_splits)
  with xy show ?thesis by blast
qed


subsection \<open>COSEECDHAtoPKCS\<close>

lemma COSEECDHAtoPKCS_throws:
  "decodeAllSync L k = Inl m \<Longrightarrow> COSEECDHAtoPKCS L k = Inl (External m)"
  by (simp add: COSEECDHAtoPKCS_def)

lemma COSEECDHAtoPKCS_Map:
  assumes "decodeAllSync L k = Inr items" "first_item items = JMap kvs"
  shows "COSEECDHAtoPKCS L k =
     Buffer_concat (kMaxLength L)
       [JBuffer [0x04],
        case map_of kvs (JNumber (- 2)) of None \<Rightarrow> JUndefined | Some u \<Rightarrow> u,
        case map_of kvs (JNumber (- 3)) of None \<Rightarrow> JUndefined | Some u \<Rightarrow> u]"
  using assms by (simp add: COSEECDHAtoPKCS_def Map_get_JMap)

lemma COSEECDHAtoPKCS_not_Map:
  assumes "decodeAllSync L k = Inr items" "\<forall>kvs. first_item items \<noteq> JMap kvs"
  shows "COSEECDHAtoPKCS L k = Inl TypeError"
proof -
  have "Map_get (first_item items) (JNumber (- 2)) = Inl TypeError"
    using assms(2) by (rule Map_get_other)
  then show ?thesis using assms(1) by (simp add: COSEECDHAtoPKCS_def)
qed

lemma COSEECDHAtoPKCS_point:
  assumes "decodeAllSync L k = Inr items" "first_item items = JMap kvs"
    "map_of kvs (JNumber (- 2)) = Some (JBuffer x)"
    "map_of kvs (JNumber (- 3)) = Some (JBuffer y)"
    "1 + int (length x) + int (length y) \<le> kMaxLength L"
  shows "COSEECDHAtoPKCS L k = Inr ([0x04] @ x @ y)"
  unfolding COSEECDHAtoPKCS_Map [OF assms(1,2)] using assms(3-5)
  by (simp add: Buffer_concat3)


lemma COSEECDHAtoPKCS_Inr:
  assumes "COSEECDHAtoPKCS L k = Inr p"
  shows "\<exists>items kvs x y. decodeAllSync L k = Inr items \<and> first_item items = JMap kvs
        \<and> map_of kvs (JNumber (- 2)) = Some (JBuffer x)
        \<and> map_of kvs (JNumber (- 3)) = Some (JBuffer y)
        \<and> 1 + int (length x) + int (length y) \<le> kMaxLength L
        \<and> p = [0x04] @ x @ y"
proof (cases "decodeAllSync L k")
  case (Inl m)
  with assms COSEECDHAtoPKCS_throws [OF Inl] show ?thesis by simp
next
  case (Inr items)
  show ?thesis
  proof (cases "\<exists>kvs. first_item items = JMap kvs")
    case False
    then have "COSEECDHAtoPKCS L k = Inl TypeError"
      by (intro COSEECDHAtoPKCS_not_Map [OF Inr]) simp
    with assms show ?thesis by simp
  next
    case True
    then obtain kvs where kvs: "first_item items = JMap kvs" by blast
    from assms [unfolded COSEECDHAtoPKCS_Map [OF Inr kvs]]
    obtain x y where
      "(case map_of kvs (JNumber (- 2)) of None \<Rightarrow> JUndefined | Some u \<Rightarrow> u) = JBuffer x"
      "(case map_of kvs (JNumber (- 3)) of None \<Rightarrow> JUndefined | Some u \<Rightarrow> u) = JBuffer y"
      "p = [0x04] @ x @ y"
      "int (length [0x04 :: byte]) + int (length x) + int (length y) \<le> kMaxLength L"
      using Buffer_concat3_Inr by blast
    then have "map_of kvs (JNumber (- 2)) = Some (JBuffer x)"
      "map_of kvs (JNumber (- 3)) = Some (JBuffer y)"
      "p = [0x04] @ x @ y" "1 + int (length x) + int (length y) \<le> kMaxLength L"
      unfolding lookup_buffer by simp_all
    with Inr kvs show ?thesis by blast
  qed
qed



lemma stub_fields [simp]:
  "toBuffer stub_library = stub_toBuffer"
  "decodeAllSync stub_library = stub_decodeAllSync"
  "createHash_SHA256 stub_library = stub_SHA256"
  "createVerify_SHA256 stub_library = stub_verify"
  "kMaxLength stub_library = 4294967296"
  by (simp_all add: stub_library_def)

lemma stub_decode_keys:
  "stub_decodeAllSync okp_key = Inr [okp_key_value]"
  "stub_decodeAllSync ec2_key = Inr [ec2_key_value]"
  "stub_decodeAllSync (ec2_key @ [0x01]) = Inr [ec2_key_value, JNumber 1]"
  "stub_decodeAllSync incomplete_key = Inr [incomplete_key_value]"
  "stub_decodeAllSync negative_length_key = Inr [negative_length_key_value]"
  "stub_decodeAllSync [0x18] = Inl ''Insufficient data''"
  "stub_decodeAllSync [] = Inr []"
  by (simp_all add: stub_decodeAllSync_def okp_key_def ec2_key_def incomplete_key_def
      negative_length_key_def)

lemma okp_point: "COSEECDHAtoPKCS stub_library okp_key = Inr [0x04, 0xaa, 0xbb]"
proof -
  have "COSEECDHAtoPKCS stub_library okp_key = Inr ([0x04] @ [0xaa] @ [0xbb])"
    by (rule COSEECDHAtoPKCS_point [where items = "[okp_key_value]"
          and kvs = "[(JNumber 1, JNumber 1), (JNumber (- 2), JBuffer [0xaa]),
                      (JNumber (- 3), JBuffer [0xbb])]"])
       (simp_all add: stub_decode_keys first_item_def okp_key_value_def)
  then show ?thesis by simp
qed




section \<open>Properties of the pipeline\<close>


lemma ext_Inr: "ext r = Inr v \<Longrightarrow> r = Inr v"
  by (cases r) auto

lemma getProp_Inl: "getProp v name = Inl e \<Longrightarrow> e = TypeError"
  by (cases v) (auto simp: getProp_def)



lemma ASN1toPEM_Inr: "ASN1toPEM v = Inr pem \<Longrightarrow> \<exists>cert. v = JBuffer cert"
  by (cases v) (auto simp: ASN1toPEM_def)

lemma parse_value_Inr:
  "parseMakeCredAuthData_value v = Inr a \<Longrightarrow> \<exists>ad. v = JBuffer ad \<and> parseMakeCredAuthData ad = Inr a"
  by (cases v) (auto simp: parseMakeCredAuthData_value_def)


text \<open>The pipeline after the parser, once the first four steps are known to succeed.\<close>

lemma signatureArguments_run:
  assumes "toBuffer L (attestationObject r) = Inr b"
      and "decodeAllSync L b = Inr items"
      and "getProp (first_item items) ''authData'' = Inr (JBuffer ad)"
      and "parseMakeCredAuthData ad = Inr a"
  shows "signatureArguments L r =
     (if flags_and (flags a) U2F_USER_PRESENTED = 0
      then Inl (Error ''User was NOT presented durring authentication!'')
      else
     (case ext (toBuffer L (clientDataJSON r)) of
        Inl e \<Rightarrow> Inl e
      | Inr clientData \<Rightarrow>
     (case COSEECDHAtoPKCS L (COSEPublicKey a) of
        Inl e \<Rightarrow> Inl e
      | Inr publicKey \<Rightarrow>
     (if kMaxLength L
           < int (length ([0x00] @ rpIdHash a @ createHash_SHA256 L clientData @ credID a
                          @ publicKey))
      then Inl RangeError
      else
     (case getProp (first_item items) ''attStmt'' of
        Inl e \<Rightarrow> Inl e
      | Inr attStmt \<Rightarrow>
     (case getProp attStmt ''x5c'' of
        Inl e \<Rightarrow> Inl e
      | Inr x5c \<Rightarrow>
     (case getIndex0 x5c of
        Inl e \<Rightarrow> Inl e
      | Inr leaf \<Rightarrow>
     (case ASN1toPEM leaf of
        Inl e \<Rightarrow> Inl e
      | Inr PEMCertificate \<Rightarrow>
     (case getProp attStmt ''sig'' of
        Inl e \<Rightarrow> Inl e
      | Inr signature \<Rightarrow>
          Inr (signature,
               [0x00] @ rpIdHash a @ createHash_SHA256 L clientData @ credID a @ publicKey,
               PEMCertificate))))))))))"
  unfolding signatureArguments_def
  by (simp add: assms parseMakeCredAuthData_value_def Let_def hash_def Buffer_concat5
      split: sum.splits)

lemma signatureArguments_Inr:
  assumes "signatureArguments L r = Inr (signature, signatureBase, PEMCertificate)"
  shows "\<exists>b items ad a clientData publicKey attStmt x5c leaf.
      toBuffer L (attestationObject r) = Inr b
    \<and> decodeAllSync L b = Inr items
    \<and> getProp (first_item items) ''authData'' = Inr (JBuffer ad)
    \<and> parseMakeCredAuthData ad = Inr a
    \<and> flags_and (flags a) U2F_USER_PRESENTED \<noteq> 0
    \<and> toBuffer L (clientDataJSON r) = Inr clientData
    \<and> COSEECDHAtoPKCS L (COSEPublicKey a) = Inr publicKey
    \<and> getProp (first_item items) ''attStmt'' = Inr attStmt
    \<and> getProp attStmt ''x5c'' = Inr x5c
    \<and> getIndex0 x5c = Inr leaf
    \<and> ASN1toPEM leaf = Inr PEMCertificate
    \<and> getProp attStmt ''sig'' = Inr signature
    \<and> signatureBase =
        [0x00] @ rpIdHash a @ createHash_SHA256 L clientData @ credID a @ publicKey"
proof -
  from assms obtain b where b: "toBuffer L (attestationObject r) = Inr b"
    unfolding signatureArguments_def
    by (cases "toBuffer L (attestationObject r)") auto
  from assms b obtain items where items: "decodeAllSync L b = Inr items"
    unfolding signatureArguments_def
    by (cases "decodeAllSync L b") auto
  from assms b items obtain v where v: "getProp (first_item items) ''authData'' = Inr v"
    unfolding signatureArguments_def Let_def
    by (cases "getProp (first_item items) ''authData''") auto
  from assms b items v obtain a where "parseMakeCredAuthData_value v = Inr a"
    unfolding signatureArguments_def Let_def
    by (cases "parseMakeCredAuthData_value v") auto
  then obtain ad where ad: "v = JBuffer ad" "parseMakeCredAuthData ad = Inr a"
    using parse_value_Inr by blast
  note run = signatureArguments_run [OF b items v [unfolded ad(1)] ad(2)]
  from assms have fl: "flags_and (flags a) U2F_USER_PRESENTED \<noteq> 0"
    unfolding run by (auto split: if_splits)
  from assms obtain clientData where cd: "toBuffer L (clientDataJSON r) = Inr clientData"
    unfolding run using fl by (cases "toBuffer L (clientDataJSON r)") auto
  from assms obtain publicKey where pk: "COSEECDHAtoPKCS L (COSEPublicKey a) = Inr publicKey"
    unfolding run using fl cd by (cases "COSEECDHAtoPKCS L (COSEPublicKey a)") auto
  from assms have sz: "\<not> kMaxLength L
           < int (length ([0x00] @ rpIdHash a @ createHash_SHA256 L clientData @ credID a
                          @ publicKey))"
    unfolding run using fl cd pk by (auto split: if_splits)
  from assms obtain attStmt where at: "getProp (first_item items) ''attStmt'' = Inr attStmt"
    unfolding run using fl cd pk sz by (cases "getProp (first_item items) ''attStmt''") auto
  from assms obtain x5c where x5c: "getProp attStmt ''x5c'' = Inr x5c"
    unfolding run using fl cd pk sz at by (cases "getProp attStmt ''x5c''") auto
  from assms obtain leaf where leaf: "getIndex0 x5c = Inr leaf"
    unfolding run using fl cd pk sz at x5c by (cases "getIndex0 x5c") auto
  from assms obtain pem where pem: "ASN1toPEM leaf = Inr pem"
    unfolding run using fl cd pk sz at x5c leaf by (cases "ASN1toPEM leaf") auto
  from assms obtain sg where sg: "getProp attStmt ''sig'' = Inr sg"
    unfolding run using fl cd pk sz at x5c leaf pem by (cases "getProp attStmt ''sig''") auto
  from assms have "signature = sg" "PEMCertificate = pem"
    "signatureBase = [0x00] @ rpIdHash a @ createHash_SHA256 L clientData @ credID a @ publicKey"
    unfolding run using fl cd pk sz at x5c leaf pem sg by auto
  with b items v ad fl cd pk at x5c leaf pem sg show ?thesis by blast
qed

lemma replicate_16: "replicate 16 x = [x, x, x, x, x, x, x, x, x, x, x, x, x, x, x, x]"
  by (simp add: eval_nat_numeral)

lemma replicate_32:
  "replicate 32 x = [x, x, x, x, x, x, x, x, x, x, x, x, x, x, x, x,
                     x, x, x, x, x, x, x, x, x, x, x, x, x, x, x, x]"
  by (simp add: eval_nat_numeral)

text \<open>The strings of the examples are the base64url encodings of their bytes.\<close>

lemma example_strings:
  "base64url client_data = client_data_string"
  "base64url (example_attestation (example_authData 0x41 okp_key)) = okp_attestation_string"
  "base64url (example_attestation (example_authData 0x40 okp_key)) = absent_attestation_string"
  "base64url (example_attestation (example_authData 0x41 ec2_key)) = ec2_attestation_string"
  "base64url (example_attestation (example_authData 0x41 ec2_key) @ [0x01])
     = trailing_attestation_string"
  "base64url [0x18] = ''GA''"
  by (simp_all add: base64url_def b64chars_def client_data_def client_data_string_def
      example_attestation_def attestation_header_def example_authData_def okp_key_def
      ec2_key_def okp_attestation_string_def absent_attestation_string_def
      ec2_attestation_string_def trailing_attestation_string_def replicate_16 replicate_32)

lemma signed_string: "base64url signed_attestation = signed_attestation_string"
  by (simp add: base64url_def b64chars_def signed_attestation_def
      signed_attestation_string_def client_data_signature_def attestation_certificate_def
      example_authData_def ec2_key_def replicate_16 replicate_32)

lemma base64url_digits: "c \<in> set (base64url b) \<Longrightarrow> base64_digit c"
  using base64_chars [of b] by (auto simp: base64url_def base64_digit_def)

lemma filter_base64url: "filter base64_digit (base64url b) = base64url b"
  by (simp add: filter_id_conv base64url_digits)

lemma filter_examples:
  "filter base64_digit client_data_string = client_data_string"
  "filter base64_digit okp_attestation_string = okp_attestation_string"
  "filter base64_digit absent_attestation_string = absent_attestation_string"
  "filter base64_digit ec2_attestation_string = ec2_attestation_string"
  "filter base64_digit trailing_attestation_string = trailing_attestation_string"
  "filter base64_digit signed_attestation_string = signed_attestation_string"
  "filter base64_digit ''GA'' = ''GA''"
  "filter base64_digit [] = []"
  using filter_base64url [of client_data]
    filter_base64url [of "example_attestation (example_authData 0x41 okp_key)"]
    filter_base64url [of "example_attestation (example_authData 0x40 okp_key)"]
    filter_base64url [of "example_attestation (example_authData 0x41 ec2_key)"]
    filter_base64url [of "example_attestation (example_authData 0x41 ec2_key) @ [0x01]"]
    filter_base64url [of signed_attestation]
    filter_base64url [of "[0x18]"]
  unfolding example_strings signed_string by simp_all

lemma not_digit: "\<not> base64_digit (CHR ''!'')"
  by (simp add: base64_digit_def b64chars_def)

lemma filter_bang: "filter base64_digit (CHR ''!'' # s) = filter base64_digit s"
  by (simp add: not_digit)

lemma strings_distinct:
  "okp_attestation_string \<noteq> client_data_string"
  "absent_attestation_string \<noteq> client_data_string"
  "absent_attestation_string \<noteq> okp_attestation_string"
  "ec2_attestation_string \<noteq> client_data_string"
  "ec2_attestation_string \<noteq> okp_attestation_string"
  "ec2_attestation_string \<noteq> absent_attestation_string"
  "trailing_attestation_string \<noteq> client_data_string"
  "trailing_attestation_string \<noteq> okp_attestation_string"
  "trailing_attestation_string \<noteq> absent_attestation_string"
  "trailing_attestation_string \<noteq> ec2_attestation_string"
  "signed_attestation_string \<noteq> client_data_string"
  "signed_attestation_string \<noteq> okp_attestation_string"
  "signed_attestation_string \<noteq> absent_attestation_string"
  "signed_attestation_string \<noteq> ec2_attestation_string"
  "signed_attestation_string \<noteq> trailing_attestation_string"
  "''GA'' \<noteq> client_data_string" "''GA'' \<noteq> okp_attestation_string"
  "''GA'' \<noteq> absent_attestation_string" "''GA'' \<noteq> ec2_attestation_string"
  "''GA'' \<noteq> trailing_attestation_string" "''GA'' \<noteq> signed_attestation_string"
  "[] \<noteq> client_data_string" "[] \<noteq> okp_attestation_string"
  "[] \<noteq> absent_attestation_string" "[] \<noteq> ec2_attestation_string"
  "[] \<noteq> trailing_attestation_string" "[] \<noteq> signed_attestation_string"
  by (simp_all add: client_data_string_def okp_attestation_string_def
      absent_attestation_string_def ec2_attestation_string_def
      trailing_attestation_string_def signed_attestation_string_def)

lemma stub_toBuffer_examples:
  "stub_toBuffer client_data_string = Inr client_data"
  "stub_toBuffer okp_attestation_string
     = Inr (example_attestation (example_authData 0x41 okp_key))"
  "stub_toBuffer absent_attestation_string
     = Inr (example_attestation (example_authData 0x40 okp_key))"
  "stub_toBuffer ec2_attestation_string
     = Inr (example_attestation (example_authData 0x41 ec2_key))"
  "stub_toBuffer trailing_attestation_string
     = Inr (example_attestation (example_authData 0x41 ec2_key) @ [0x01])"
  "stub_toBuffer signed_attestation_string = Inr signed_attestation"
  "stub_toBuffer (CHR ''!'' # signed_attestation_string) = Inr signed_attestation"
  "stub_toBuffer ''GA'' = Inr [0x18]"
  "stub_toBuffer [] = Inr []"
  by (simp_all add: stub_toBuffer_def Let_def filter_bang filter_examples strings_distinct
      del: filter.simps)

lemma example_attestation_not_key:
  "example_attestation ad \<noteq> okp_key" "example_attestation ad \<noteq> ec2_key"
  "example_attestation ad \<noteq> ec2_key @ [0x01]" "example_attestation ad \<noteq> incomplete_key"
  "example_attestation ad \<noteq> [0x18]" "example_attestation ad \<noteq> []"
  "example_attestation ad @ [0x01] \<noteq> okp_key" "example_attestation ad @ [0x01] \<noteq> ec2_key"
  "example_attestation ad @ [0x01] \<noteq> ec2_key @ [0x01]"
  "example_attestation ad @ [0x01] \<noteq> incomplete_key"
  "example_attestation ad @ [0x01] \<noteq> [0x18]" "example_attestation ad @ [0x01] \<noteq> []"
  "example_attestation ad \<noteq> negative_length_key"
  "example_attestation ad @ [0x01] \<noteq> negative_length_key"
  by (simp_all add: example_attestation_def attestation_header_def okp_key_def ec2_key_def
      incomplete_key_def negative_length_key_def)

lemma signed_attestation_not_other:
  "signed_attestation \<noteq> okp_key" "signed_attestation \<noteq> ec2_key"
  "signed_attestation \<noteq> ec2_key @ [0x01]" "signed_attestation \<noteq> incomplete_key"
  "signed_attestation \<noteq> negative_length_key"
  "signed_attestation \<noteq> [0x18]" "signed_attestation \<noteq> []"
  "signed_attestation \<noteq> example_attestation ad"
  "signed_attestation \<noteq> example_attestation ad @ [0x01]"
  by (simp_all add: signed_attestation_def example_attestation_def attestation_header_def
      okp_key_def ec2_key_def incomplete_key_def negative_length_key_def)

lemma example_attestation_inject:
  "example_attestation ad = example_attestation ad' \<longleftrightarrow> ad = ad'"
  by (auto simp: example_attestation_def)

lemma example_attestation_trailing:
  "example_attestation ad @ [0x01] \<noteq> example_attestation ad'"
  if "length ad' \<noteq> length ad + 1"
proof
  assume "example_attestation ad @ [0x01] = example_attestation ad'"
  then have "length (example_attestation ad @ [0x01]) = length (example_attestation ad')"
    by simp
  with that show False by (simp add: example_attestation_def)
qed

lemma length_keys: "length okp_key = 9" "length ec2_key = 77"
  by (simp_all add: okp_key_def ec2_key_def)

lemma example_authData_inject:
  "example_authData f k = example_authData f' k' \<longleftrightarrow> f = f' \<and> k = k'"
  by (auto simp: example_authData_def)

lemma length_example_authData: "length (example_authData f k) = 57 + length k"
  by (simp add: example_authData_def)

lemma key_distinct: "okp_key \<noteq> ec2_key" "ec2_key \<noteq> okp_key"
  by (simp_all add: okp_key_def ec2_key_def)

lemma stub_decode_attestations:
  "stub_decodeAllSync (example_attestation (example_authData 0x41 okp_key))
     = Inr [example_object (example_authData 0x41 okp_key)]"
  "stub_decodeAllSync (example_attestation (example_authData 0x40 okp_key))
     = Inr [example_object (example_authData 0x40 okp_key)]"
  "stub_decodeAllSync (example_attestation (example_authData 0x41 ec2_key))
     = Inr [example_object (example_authData 0x41 ec2_key)]"
  "stub_decodeAllSync (example_attestation (example_authData 0x41 ec2_key) @ [0x01])
     = Inr [example_object (example_authData 0x41 ec2_key), JNumber 1]"
  "stub_decodeAllSync signed_attestation = Inr [signed_object]"
  by (simp_all add: stub_decodeAllSync_def example_attestation_not_key
      example_attestation_inject example_authData_inject key_distinct
      example_attestation_trailing length_example_authData length_keys
      signed_attestation_not_other)

lemma parse_example_authData:
  "parseMakeCredAuthData (example_authData fl key) =
     Inr \<lparr> rpIdHash = replicate 32 0x11, flagsBuf = [fl], flags = Some fl, counter = 1,
           counterBuf = [0x00, 0x00, 0x00, 0x01], aaguid = replicate 16 0x00,
           credID = [0xc1, 0xc2], COSEPublicKey = key \<rparr>"
  by (simp add: parse_long example_authData_def nth_append)

lemma example_object_props:
  "first_item [example_object ad] = example_object ad"
  "first_item [example_object ad, v] = example_object ad"
  "getProp (example_object ad) ''authData'' = Inr (JBuffer ad)"
  "getProp (example_object ad) ''attStmt''
     = Inr (JObject [(''sig'', JBuffer [0x01, 0x02]), (''x5c'', JArray [JBuffer [0x30, 0x00]])])"
  "getProp (JObject [(''sig'', JBuffer [0x01, 0x02]), (''x5c'', JArray [JBuffer [0x30, 0x00]])])
     ''x5c'' = Inr (JArray [JBuffer [0x30, 0x00]])"
  "getProp (JObject [(''sig'', JBuffer [0x01, 0x02]), (''x5c'', JArray [JBuffer [0x30, 0x00]])])
     ''sig'' = Inr (JBuffer [0x01, 0x02])"
  "getIndex0 (JArray [JBuffer [0x30, 0x00]]) = Inr (JBuffer [0x30, 0x00])"
  by (simp_all add: first_item_def example_object_def getProp_def getIndex0_def)

lemma response_fields [simp]:
  "attestationObject (response att) = att" "clientDataJSON (response att) = client_data_string"
  by (simp_all add: response_def)

lemma stub_SHA256_client_data: "stub_SHA256 client_data = client_data_digest"
  by (simp add: stub_SHA256_def)

lemma ec2_point: "COSEECDHAtoPKCS stub_library ec2_key = Inr sample_point"
proof -
  have p: "[0x04] @ replicate 32 0xaa @ replicate 32 0xbb = sample_point"
    by (simp add: sample_point_def eval_nat_numeral)
  have "COSEECDHAtoPKCS stub_library ec2_key = Inr ([0x04] @ replicate 32 0xaa @ replicate 32 0xbb)"
    by (rule COSEECDHAtoPKCS_point [where items = "[ec2_key_value]"
          and kvs = "[(JNumber 1, JNumber 2), (JNumber 3, JNumber (- 7)),
                      (JNumber (- 1), JNumber 1),
                      (JNumber (- 2), JBuffer (replicate 32 0xaa)),
                      (JNumber (- 3), JBuffer (replicate 32 0xbb))]"])
       (simp_all add: stub_decode_keys first_item_def ec2_key_value_def)
  then show ?thesis unfolding p .
qed

lemma length_client_data_digest: "length client_data_digest = 32"
  by (simp add: client_data_digest_def)

lemma length_sample_point: "length sample_point = 65"
  by (simp add: sample_point_def)

lemma okp_signatureArguments:
  "signatureArguments stub_library (response okp_attestation_string) =
     Inr (JBuffer [0x01, 0x02],
          [0x00] @ replicate 32 0x11 @ client_data_digest @ [0xc1, 0xc2] @ [0x04, 0xaa, 0xbb],
          ''-----BEGIN CERTIFICATE-----\<newline>MAA=\<newline>-----END CERTIFICATE-----\<newline>'')"
proof -
  note k = okp_point
  have f: "flags_and (Some 0x41) U2F_USER_PRESENTED \<noteq> 0"
    by (simp add: flags_and_def U2F_USER_PRESENTED_def)
  show ?thesis
    by (subst signatureArguments_run [where b = "example_attestation (example_authData 0x41 okp_key)"
          and items = "[example_object (example_authData 0x41 okp_key)]"
          and ad = "example_authData 0x41 okp_key", OF _ _ _ parse_example_authData])
       (simp_all add: stub_toBuffer_examples stub_decode_attestations example_object_props
          k f certificate_PEM stub_SHA256_client_data length_client_data_digest
          length_sample_point)
qed

lemma ec2_signatureArguments:
  "signatureArguments stub_library (response ec2_attestation_string) =
     Inr (JBuffer [0x01, 0x02],
          [0x00] @ replicate 32 0x11 @ client_data_digest @ [0xc1, 0xc2] @ sample_point,
          ''-----BEGIN CERTIFICATE-----\<newline>MAA=\<newline>-----END CERTIFICATE-----\<newline>'')"
proof -
  note k = ec2_point
  have f: "flags_and (Some 0x41) U2F_USER_PRESENTED \<noteq> 0"
    by (simp add: flags_and_def U2F_USER_PRESENTED_def)
  show ?thesis
    by (subst signatureArguments_run [where b = "example_attestation (example_authData 0x41 ec2_key)"
          and items = "[example_object (example_authData 0x41 ec2_key)]"
          and ad = "example_authData 0x41 ec2_key", OF _ _ _ parse_example_authData])
       (simp_all add: stub_toBuffer_examples stub_decode_attestations example_object_props
          k f certificate_PEM stub_SHA256_client_data length_client_data_digest
          length_sample_point)
qed

lemma parse_Inr:
  assumes "parseMakeCredAuthData ad = Inr a"
  shows "55 \<le> length ad" and "rpIdHash a = take 32 ad" and "flags a = Some (ad ! 32)"
    and "credID a = take (unat (ad ! 53) * 2 ^ 8 + unat (ad ! 54)) (drop 55 ad)"
    and "COSEPublicKey a = drop (55 + (unat (ad ! 53) * 2 ^ 8 + unat (ad ! 54))) ad"
proof -
  show len: "55 \<le> length ad"
  proof (rule ccontr)
    assume "\<not> 55 \<le> length ad"
    then have "parseMakeCredAuthData ad = Inl RangeError" by (intro parse_short) simp
    with assms show False by simp
  qed
  from parse_long [OF len] assms
  show "rpIdHash a = take 32 ad" and "flags a = Some (ad ! 32)"
    and "credID a = take (unat (ad ! 53) * 2 ^ 8 + unat (ad ! 54)) (drop 55 ad)"
    and "COSEPublicKey a = drop (55 + (unat (ad ! 53) * 2 ^ 8 + unat (ad ! 54))) ad"
    by auto
qed

text \<open>
  Claim C2 as stated fails in its last segment: the point is not always 65 bytes. The
  attestation object of this response carries the key \<open>{1: 1, -2: h'aa', -3: h'bb'}\<close>;
  the response reaches the verifier, and the signed buffer ends in the three bytes
  \<open>04 aa bb\<close>.
\<close>

theorem signatureBase_short_point_counterexample:
  "signatureArguments stub_library
     \<lparr> attestationObject = okp_attestation_string, clientDataJSON = client_data_string \<rparr> =
     Inr (JBuffer [0x01, 0x02],
          [0x00] @ replicate 32 0x11 @ client_data_digest @ [0xc1, 0xc2] @ [0x04, 0xaa, 0xbb],
          ''-----BEGIN CERTIFICATE-----\<newline>MAA=\<newline>-----END CERTIFICATE-----\<newline>'')
   \<and> length ([0x00] @ replicate 32 0x11 @ client_data_digest @ [0xc1, 0xc2]
               @ [0x04, 0xaa, 0xbb :: byte]) = 70"
  using okp_signatureArguments by (simp add: response_def client_data_digest_def)

text \<open>
  Claim C2, amended. Whenever the pipeline reaches the verifier, the buffer it passes is
  exactly \<open>0x00 \<parallel> rpIdHash \<parallel> hash(clientData) \<parallel> credID \<parallel> 0x04 \<parallel> x \<parallel> y\<close>, in this order:
  \<open>rpIdHash\<close> (32 bytes) and \<open>credID\<close> are the fields of the parsed authenticator data,
  \<open>clientData\<close> is the decoded \<open>clientDataJSON\<close>, the hash is the library's SHA-256, and
  \<open>x\<close> and \<open>y\<close> are the byte strings under the labels \<open>-2\<close> and \<open>-3\<close> of the decoded COSE
  key, of whatever length. The result of \<open>verifyFidoU2fAttestation\<close> is the verifier's
  answer on this buffer.
\<close>

theorem signatureBase_layout:
  assumes "signatureArguments L r = Inr (signature, signatureBase, PEMCertificate)"
  shows "\<exists>b items ad a clientData keyItems kvs x y.
      toBuffer L (attestationObject r) = Inr b
    \<and> decodeAllSync L b = Inr items
    \<and> getProp (first_item items) ''authData'' = Inr (JBuffer ad)
    \<and> parseMakeCredAuthData ad = Inr a
    \<and> toBuffer L (clientDataJSON r) = Inr clientData
    \<and> decodeAllSync L (COSEPublicKey a) = Inr keyItems
    \<and> first_item keyItems = JMap kvs
    \<and> map_of kvs (JNumber (- 2)) = Some (JBuffer x)
    \<and> map_of kvs (JNumber (- 3)) = Some (JBuffer y)
    \<and> signatureBase =
        [0x00] @ rpIdHash a @ createHash_SHA256 L clientData @ credID a @ [0x04] @ x @ y
    \<and> length (rpIdHash a) = 32
    \<and> verifyFidoU2fAttestation L r
        = ext (createVerify_SHA256 L signatureBase PEMCertificate signature)"
proof -
  from signatureArguments_Inr [OF assms]
  obtain b items ad a clientData publicKey where s:
    "toBuffer L (attestationObject r) = Inr b"
    "decodeAllSync L b = Inr items"
    "getProp (first_item items) ''authData'' = Inr (JBuffer ad)"
    "parseMakeCredAuthData ad = Inr a"
    "toBuffer L (clientDataJSON r) = Inr clientData"
    "COSEECDHAtoPKCS L (COSEPublicKey a) = Inr publicKey"
    "signatureBase =
        [0x00] @ rpIdHash a @ createHash_SHA256 L clientData @ credID a @ publicKey"
    by blast
  from COSEECDHAtoPKCS_Inr [OF s(6)]
  obtain keyItems kvs x y where k:
    "decodeAllSync L (COSEPublicKey a) = Inr keyItems"
    "first_item keyItems = JMap kvs"
    "map_of kvs (JNumber (- 2)) = Some (JBuffer x)"
    "map_of kvs (JNumber (- 3)) = Some (JBuffer y)"
    "publicKey = [0x04] @ x @ y"
    by blast
  have l: "length (rpIdHash a) = 32"
    using parse_Inr(1,2) [OF s(4)] by simp
  have v: "verifyFidoU2fAttestation L r
        = ext (createVerify_SHA256 L signatureBase PEMCertificate signature)"
    by (simp add: verifyFidoU2fAttestation_def assms verifySignature_def)
  from s(1-5) k(1-4) s(7) [unfolded k(5)] l v show ?thesis by blast
qed

theorem signatureBase_layout_witness:
  "signatureArguments stub_library (response ec2_attestation_string) =
     Inr (JBuffer [0x01, 0x02],
          [0x00] @ replicate 32 0x11 @ client_data_digest @ [0xc1, 0xc2] @ sample_point,
          ''-----BEGIN CERTIFICATE-----\<newline>MAA=\<newline>-----END CERTIFICATE-----\<newline>'')
   \<and> (\<exists>x y. [0x00] @ replicate 32 0x11 @ client_data_digest @ [0xc1, 0xc2] @ sample_point
              = [0x00] @ replicate 32 0x11 @ stub_SHA256 client_data @ [0xc1, 0xc2]
                @ [0x04] @ x @ y)"
proof -
  from signatureBase_layout [OF ec2_signatureArguments]
  obtain b items ad a clientData x y where w:
    "toBuffer stub_library (attestationObject (response ec2_attestation_string)) = Inr b"
    "decodeAllSync stub_library b = Inr items"
    "getProp (first_item items) ''authData'' = Inr (JBuffer ad)"
    "parseMakeCredAuthData ad = Inr a"
    "toBuffer stub_library (clientDataJSON (response ec2_attestation_string)) = Inr clientData"
    "[0x00] @ replicate 32 0x11 @ client_data_digest @ [0xc1, 0xc2] @ sample_point =
        [0x00] @ rpIdHash a @ createHash_SHA256 stub_library clientData @ credID a
          @ [0x04] @ x @ y"
    by blast
  from w(1) have b: "b = example_attestation (example_authData 0x41 ec2_key)"
    by (simp add: stub_toBuffer_examples)
  from w(2) have "items = [example_object (example_authData 0x41 ec2_key)]"
    unfolding b by (simp add: stub_decode_attestations)
  with w(3) have "ad = example_authData 0x41 ec2_key"
    by (simp add: example_object_props)
  with w(4) have a: "rpIdHash a = replicate 32 0x11" "credID a = [0xc1, 0xc2]"
    by (auto simp: parse_example_authData)
  from w(5) have "clientData = client_data"
    by (simp add: stub_toBuffer_examples)
  with w(6) a have "\<exists>x y. [0x00] @ replicate 32 0x11 @ client_data_digest @ [0xc1, 0xc2] @ sample_point
              = [0x00] @ replicate 32 0x11 @ stub_SHA256 client_data @ [0xc1, 0xc2]
                @ [0x04] @ x @ y"
    by auto
  with ec2_signatureArguments show ?thesis by blast
qed




lemma parse_value_not_buffer:
  "(\<forall>ad. v \<noteq> JBuffer ad) \<Longrightarrow> parseMakeCredAuthData_value v = Inl TypeError"
  by (cases v) (auto simp: parseMakeCredAuthData_value_def)

lemma no_authData_TypeError:
  assumes "toBuffer L (attestationObject r) = Inr b"
      and "decodeAllSync L b = Inr items"
      and "\<forall>ad. getProp (first_item items) ''authData'' \<noteq> Inr (JBuffer ad)"
  shows "signatureArguments L r = Inl TypeError"
proof (cases "getProp (first_item items) ''authData''")
  case (Inl e)
  then have "e = TypeError" by (rule getProp_Inl)
  with Inl assms(1,2) show ?thesis
    by (simp add: signatureArguments_def)
next
  case (Inr v)
  with assms(3) have "\<forall>ad. v \<noteq> JBuffer ad" by simp
  then have "parseMakeCredAuthData_value v = Inl TypeError"
    by (rule parse_value_not_buffer)
  with Inr assms(1,2) show ?thesis
    by (simp add: signatureArguments_def)
qed

lemma signed_object_props:
  "first_item [signed_object] = signed_object"
  "getProp signed_object ''authData'' = Inr (JBuffer (example_authData 0x41 ec2_key))"
  "getProp signed_object ''attStmt''
     = Inr (JObject [(''sig'', JBuffer client_data_signature),
                     (''x5c'', JArray [JBuffer attestation_certificate])])"
  "getProp (JObject [(''sig'', JBuffer client_data_signature),
                     (''x5c'', JArray [JBuffer attestation_certificate])]) ''x5c''
     = Inr (JArray [JBuffer attestation_certificate])"
  "getProp (JObject [(''sig'', JBuffer client_data_signature),
                     (''x5c'', JArray [JBuffer attestation_certificate])]) ''sig''
     = Inr (JBuffer client_data_signature)"
  "getIndex0 (JArray [JBuffer attestation_certificate]) = Inr (JBuffer attestation_certificate)"
  by (simp_all add: first_item_def signed_object_def getProp_def getIndex0_def)

lemma ASN1toPEM_Buffer: "\<exists>pem. ASN1toPEM (JBuffer b) = Inr pem"
  by (simp add: ASN1toPEM_def Let_def split: prod.split)

lemma signed_signatureArguments:
  assumes "ASN1toPEM (JBuffer attestation_certificate) = Inr pem"
      and "stub_toBuffer s = Inr signed_attestation"
  shows "signatureArguments stub_library (response s) =
     Inr (JBuffer client_data_signature,
          [0x00] @ replicate 32 0x11 @ client_data_digest @ [0xc1, 0xc2] @ sample_point,
          pem)"
proof -
  note k = ec2_point
  have f: "flags_and (Some 0x41) U2F_USER_PRESENTED \<noteq> 0"
    by (simp add: flags_and_def U2F_USER_PRESENTED_def)
  show ?thesis
    by (subst signatureArguments_run [where b = signed_attestation
          and items = "[signed_object]"
          and ad = "example_authData 0x41 ec2_key", OF _ _ _ parse_example_authData])
       (simp_all add: assms stub_toBuffer_examples stub_decode_attestations signed_object_props
          k f stub_SHA256_client_data length_client_data_digest length_sample_point)
qed

lemma signed_verify:
  assumes "stub_toBuffer s = Inr signed_attestation"
  shows "verifyFidoU2fAttestation stub_library (response s) = Inr False"
proof -
  obtain pem where pem: "ASN1toPEM (JBuffer attestation_certificate) = Inr pem"
    using ASN1toPEM_Buffer by blast
  have "[0x00] @ replicate 32 0x11 @ client_data_digest @ [0xc1, 0xc2] @ sample_point
      \<noteq> client_data"
    by (simp add: client_data_def)
  then show ?thesis
    unfolding verifyFidoU2fAttestation_def signed_signatureArguments [OF pem assms]
    by (simp add: verifySignature_def stub_verify_def pem)
qed

text \<open>
  Claim C9 as stated fails. The string \<open>!\<close> followed by \<open>signed_attestation_string\<close> is
  not base64url, since \<open>!\<close> is no digit of the alphabet. \<open>base64url.toBuffer\<close> skips the
  \<open>!\<close> and returns the bytes of \<open>signed_attestation\<close>, the pipeline runs to its end, and
  the verifier answers \<open>false\<close>, the signature being none of the signature base:
  \<open>verifyFidoU2fAttestation\<close> returns \<open>false\<close> on an attestation object that is not
  validly encoded.
\<close>

theorem invalid_base64url_counterexample:
  "\<not> base64_digit (CHR ''!'')
   \<and> toBuffer stub_library (CHR ''!'' # signed_attestation_string) = Inr signed_attestation
   \<and> decodeAllSync stub_library signed_attestation = Inr [signed_object]
   \<and> verifyFidoU2fAttestation stub_library
       \<lparr> attestationObject = CHR ''!'' # signed_attestation_string,
         clientDataJSON = client_data_string \<rparr> = Inr False"
  using signed_verify [OF stub_toBuffer_examples(7)]
  by (simp add: not_digit stub_toBuffer_examples stub_decode_attestations response_def)

text \<open>
  Claim C9, amended. When \<open>base64url.toBuffer\<close> or \<open>cbor.decodeAllSync\<close> throws on the
  attestation object, \<open>verifyFidoU2fAttestation\<close> throws the same exception. When they
  return but the first decoded item has no \<open>authData\<close> byte string (in particular when
  there is no item at all, or the item is not an object), it throws a \<open>TypeError\<close>. In
  neither case does it return \<open>false\<close>. The code itself does not check the encoding of the
  string: its result depends on the attestation object only through the bytes that
  \<open>base64url.toBuffer\<close> returns, so two strings that \<open>toBuffer\<close> maps to the same bytes
  (a string and the same string with characters outside the alphabet added) get the same
  result.
\<close>

theorem undecodable_attestation_raises:
  "((toBuffer L (attestationObject r) = Inl msg
      \<or> (\<exists>b. toBuffer L (attestationObject r) = Inr b \<and> decodeAllSync L b = Inl msg))
     \<longrightarrow> verifyFidoU2fAttestation L r = Inl (External msg)
         \<and> verifyFidoU2fAttestation L r \<noteq> Inr False)
   \<and> ((\<exists>b items. toBuffer L (attestationObject r) = Inr b \<and> decodeAllSync L b = Inr items
          \<and> (\<forall>ad. getProp (first_item items) ''authData'' \<noteq> Inr (JBuffer ad)))
     \<longrightarrow> verifyFidoU2fAttestation L r = Inl TypeError
         \<and> verifyFidoU2fAttestation L r \<noteq> Inr False)
   \<and> (toBuffer L (attestationObject r) = toBuffer L (attestationObject r')
        \<and> clientDataJSON r = clientDataJSON r'
     \<longrightarrow> verifyFidoU2fAttestation L r = verifyFidoU2fAttestation L r')"
proof (intro conjI impI)
  assume "toBuffer L (attestationObject r) = Inl msg
      \<or> (\<exists>b. toBuffer L (attestationObject r) = Inr b \<and> decodeAllSync L b = Inl msg)"
  then show e: "verifyFidoU2fAttestation L r = Inl (External msg)"
    by (auto simp: verifyFidoU2fAttestation_def signatureArguments_def)
  show "verifyFidoU2fAttestation L r \<noteq> Inr False"
    unfolding e by simp
next
  assume "\<exists>b items. toBuffer L (attestationObject r) = Inr b \<and> decodeAllSync L b = Inr items
          \<and> (\<forall>ad. getProp (first_item items) ''authData'' \<noteq> Inr (JBuffer ad))"
  then have "signatureArguments L r = Inl TypeError"
    using no_authData_TypeError by blast
  then show e: "verifyFidoU2fAttestation L r = Inl TypeError"
    by (simp add: verifyFidoU2fAttestation_def)
  show "verifyFidoU2fAttestation L r \<noteq> Inr False"
    unfolding e by simp
next
  assume "toBuffer L (attestationObject r) = toBuffer L (attestationObject r')
        \<and> clientDataJSON r = clientDataJSON r'"
  then have h: "toBuffer L (attestationObject r) = toBuffer L (attestationObject r')"
    "clientDataJSON r = clientDataJSON r'"
    by simp_all
  have "signatureArguments L r = signatureArguments L r'"
    unfolding signatureArguments_def h ..
  then show "verifyFidoU2fAttestation L r = verifyFidoU2fAttestation L r'"
    unfolding verifyFidoU2fAttestation_def by simp
qed

theorem undecodable_attestation_raises_witness:
  "verifyFidoU2fAttestation stub_library (response ''GA'')
     = Inl (External ''Insufficient data'')
   \<and> verifyFidoU2fAttestation stub_library (response []) = Inl TypeError
   \<and> verifyFidoU2fAttestation stub_library (response (CHR ''!'' # signed_attestation_string))
     = verifyFidoU2fAttestation stub_library (response signed_attestation_string)"
proof -
  have "toBuffer stub_library (attestationObject (response ''GA'')) = Inr [0x18]
      \<and> decodeAllSync stub_library [0x18] = Inl ''Insufficient data''"
    by (simp add: stub_toBuffer_examples stub_decode_keys)
  with undecodable_attestation_raises [of stub_library "response ''GA''" "''Insufficient data''"]
  have a: "verifyFidoU2fAttestation stub_library (response ''GA'')
     = Inl (External ''Insufficient data'')"
    by blast
  have "toBuffer stub_library (attestationObject (response [])) = Inr []
      \<and> decodeAllSync stub_library [] = Inr []
      \<and> (\<forall>ad. getProp (first_item []) ''authData'' \<noteq> Inr (JBuffer ad))"
    by (simp add: stub_toBuffer_examples stub_decode_keys first_item_def getProp_def)
  with undecodable_attestation_raises [of stub_library "response []"]
  have b: "verifyFidoU2fAttestation stub_library (response []) = Inl TypeError"
    by blast
  have "toBuffer stub_library
          (attestationObject (response (CHR ''!'' # signed_attestation_string)))
        = toBuffer stub_library (attestationObject (response signed_attestation_string))
      \<and> clientDataJSON (response (CHR ''!'' # signed_attestation_string))
        = clientDataJSON (response signed_attestation_string)"
    by (simp add: stub_toBuffer_examples)
  with undecodable_attestation_raises [of stub_library
      "response (CHR ''!'' # signed_attestation_string)" _
      "response signed_attestation_string"]
  have c: "verifyFidoU2fAttestation stub_library
             (response (CHR ''!'' # signed_attestation_string))
     = verifyFidoU2fAttestation stub_library (response signed_attestation_string)"
    by blast
  from a b c show ?thesis by simp
qed

text \<open>
  Claim C10. Both decoding sites use the first decoded item only. When the COSE key
  bytes decode to \<open>v\<close> followed by more items, the conversion gives what it gives on bytes
  that decode to \<open>v\<close> alone; when the attestation object decodes to \<open>v\<close> followed by more
  items, verification gives what it gives on an attestation object that decodes to \<open>v\<close>
  alone (with the same \<open>clientDataJSON\<close>).
\<close>

theorem trailing_items_ignored:
  "(decodeAllSync L k = Inr (v # rest) \<and> decodeAllSync L k' = Inr [v]
      \<longrightarrow> COSEECDHAtoPKCS L k = COSEECDHAtoPKCS L k')
   \<and> (toBuffer L (attestationObject r) = Inr b \<and> decodeAllSync L b = Inr (v # rest)
        \<and> toBuffer L (attestationObject r') = Inr b' \<and> decodeAllSync L b' = Inr [v]
        \<and> clientDataJSON r' = clientDataJSON r
      \<longrightarrow> signatureArguments L r = signatureArguments L r'
          \<and> verifyFidoU2fAttestation L r = verifyFidoU2fAttestation L r')"
proof (intro conjI impI; elim conjE)
  assume "decodeAllSync L k = Inr (v # rest)" "decodeAllSync L k' = Inr [v]"
  then show "COSEECDHAtoPKCS L k = COSEECDHAtoPKCS L k'"
    by (simp add: COSEECDHAtoPKCS_def first_item_def)
next
  assume h: "toBuffer L (attestationObject r) = Inr b" "decodeAllSync L b = Inr (v # rest)"
    "toBuffer L (attestationObject r') = Inr b'" "decodeAllSync L b' = Inr [v]"
    "clientDataJSON r' = clientDataJSON r"
  show s: "signatureArguments L r = signatureArguments L r'"
    unfolding signatureArguments_def h ext_simps sum.case first_item_def list.case ..
  show "verifyFidoU2fAttestation L r = verifyFidoU2fAttestation L r'"
    unfolding verifyFidoU2fAttestation_def s ..
qed

theorem trailing_items_ignored_witness:
  "COSEECDHAtoPKCS stub_library (ec2_key @ [0x01]) = COSEECDHAtoPKCS stub_library ec2_key
   \<and> signatureArguments stub_library (response trailing_attestation_string) =
       Inr (JBuffer [0x01, 0x02],
            [0x00] @ replicate 32 0x11 @ client_data_digest @ [0xc1, 0xc2] @ sample_point,
            ''-----BEGIN CERTIFICATE-----\<newline>MAA=\<newline>-----END CERTIFICATE-----\<newline>'')
   \<and> verifyFidoU2fAttestation stub_library (response trailing_attestation_string)
       = verifyFidoU2fAttestation stub_library (response ec2_attestation_string)"
proof -
  have "decodeAllSync stub_library (ec2_key @ [0x01]) = Inr (ec2_key_value # [JNumber 1])
      \<and> decodeAllSync stub_library ec2_key = Inr [ec2_key_value]"
    by (simp add: stub_decode_keys)
  with trailing_items_ignored [of stub_library "ec2_key @ [0x01]" ec2_key_value "[JNumber 1]"
      ec2_key]
  have a: "COSEECDHAtoPKCS stub_library (ec2_key @ [0x01]) = COSEECDHAtoPKCS stub_library ec2_key"
    by blast
  have "toBuffer stub_library (attestationObject (response trailing_attestation_string))
        = Inr (example_attestation (example_authData 0x41 ec2_key) @ [0x01])
      \<and> decodeAllSync stub_library (example_attestation (example_authData 0x41 ec2_key) @ [0x01])
        = Inr (example_object (example_authData 0x41 ec2_key) # [JNumber 1])
      \<and> toBuffer stub_library (attestationObject (response ec2_attestation_string))
        = Inr (example_attestation (example_authData 0x41 ec2_key))
      \<and> decodeAllSync stub_library (example_attestation (example_authData 0x41 ec2_key))
        = Inr [example_object (example_authData 0x41 ec2_key)]
      \<and> clientDataJSON (response ec2_attestation_string)
        = clientDataJSON (response trailing_attestation_string)"
    by (simp add: stub_toBuffer_examples stub_decode_attestations)
  with trailing_items_ignored [of stub_library _ "example_object (example_authData 0x41 ec2_key)"
      "[JNumber 1]" _ "response trailing_attestation_string"
      "example_attestation (example_authData 0x41 ec2_key) @ [0x01]"
      "response ec2_attestation_string"
      "example_attestation (example_authData 0x41 ec2_key)"]
  have b: "signatureArguments stub_library (response trailing_attestation_string)
        = signatureArguments stub_library (response ec2_attestation_string)"
    "verifyFidoU2fAttestation stub_library (response trailing_attestation_string)
       = verifyFidoU2fAttestation stub_library (response ec2_attestation_string)"
    by blast+
  from a b ec2_signatureArguments show ?thesis by simp
qed

end
